theory Spec2Isabelle
  imports Main "HOL-Library.AList"
begin

section \<open>JSON text, JavaScript values and exceptions\<close>

text \<open>
  The configuration files of the target applications hold JSON. A JSON value as
  \<^verbatim>\<open>JSON.parse\<close> delivers it: the fields of an object are kept as an association
  list in enumeration order (the order of \<^verbatim>\<open>Object.keys\<close> and of
  \<^verbatim>\<open>JSON.stringify\<close>), so that order is visible to the theorems.
\<close>

datatype json =
    JNull
  | JBool bool
  | JNum int
  | JStr string
  | JArr "json list"
  | JObj "(string \<times> json) list"

text \<open>
  A value in the memory of the running program. It differs from \<^typ>\<open>json\<close> in one
  point: a JavaScript array is an object and takes named properties
  (\<^verbatim>\<open>Object.assign(arr, {k: v})\<close>); \<^verbatim>\<open>JSON.stringify\<close> does not print them.
  The second argument of \<open>VArr\<close> holds these named properties.
  \<^verbatim>\<open>undefined\<close> is \<open>None\<close> of \<open>jsval option\<close>.
\<close>

datatype jsval =
    VNull
  | VBool bool
  | VNum int
  | VStr string
  | VArr "jsval list" "(string \<times> jsval) list"
  | VObj "(string \<times> jsval) list"

datatype exn =
    Error string
  | TypeError string
  | SyntaxError string
  | SystemError string

fun message :: "exn \<Rightarrow> string" where
  "message (Error m) = m"
| "message (TypeError m) = m"
| "message (SyntaxError m) = m"
| "message (SystemError m) = m"

text \<open>Sequencing of a step that may throw: the exception leaves, a value goes on.\<close>

fun thenE :: "exn + 'a \<Rightarrow> ('a \<Rightarrow> exn + 'b) \<Rightarrow> exn + 'b" where
  "thenE (Inl e) f = Inl e"
| "thenE (Inr x) f = f x"

primrec of_json :: "json \<Rightarrow> jsval" where
  "of_json JNull = VNull"
| "of_json (JBool b) = VBool b"
| "of_json (JNum n) = VNum n"
| "of_json (JStr s) = VStr s"
| "of_json (JArr xs) = VArr (map of_json xs) []"
| "of_json (JObj fs) = VObj (map (map_prod id of_json) fs)"

primrec to_json :: "jsval \<Rightarrow> json" where
  "to_json VNull = JNull"
| "to_json (VBool b) = JBool b"
| "to_json (VNum n) = JNum n"
| "to_json (VStr s) = JStr s"
| "to_json (VArr xs ps) = JArr (map to_json xs)"
| "to_json (VObj fs) = JObj (map (map_prod id to_json) fs)"

text \<open>
  The text of a file, as far as the program can tell texts apart:
  \<^item> \<open>Blank\<close>: empty or white space only (\<^verbatim>\<open>content.trim()\<close> is the empty string);
  \<^item> \<open>Garbled m\<close>: other text that \<^verbatim>\<open>JSON.parse\<close> rejects with a SyntaxError of message \<open>m\<close>;
  \<^item> \<open>Json j\<close>: text that \<^verbatim>\<open>JSON.parse\<close> reads as \<open>j\<close>.
\<close>

datatype content = Blank | Garbled string | Json json

fun JSON_parse :: "content \<Rightarrow> exn + jsval" where
  "JSON_parse Blank = Inl (SyntaxError ''Unexpected end of JSON input'')"
| "JSON_parse (Garbled m) = Inl (SyntaxError m)"
| "JSON_parse (Json j) = Inr (of_json j)"

definition JSON_stringify :: "jsval \<Rightarrow> content" where
  "JSON_stringify v = Json (to_json v)"

text \<open>\<^verbatim>\<open>content.trim()\<close> used as a condition: the trimmed text is not empty.\<close>

fun trim_truthy :: "content \<Rightarrow> bool" where
  "trim_truthy Blank = False"
| "trim_truthy (Garbled m) = True"
| "trim_truthy (Json j) = True"

subsection \<open>The JavaScript operations the adapters use\<close>

text \<open>Truthiness (\<^verbatim>\<open>if (v)\<close>, \<^verbatim>\<open>!v\<close>, \<^verbatim>\<open>v || d\<close>).\<close>

fun truthy :: "jsval option \<Rightarrow> bool" where
  "truthy None = False"
| "truthy (Some VNull) = False"
| "truthy (Some (VBool b)) = b"
| "truthy (Some (VNum n)) = (n \<noteq> 0)"
| "truthy (Some (VStr s)) = (s \<noteq> [])"
| "truthy (Some (VArr xs ps)) = True"
| "truthy (Some (VObj fs)) = True"

text \<open>
  Reading a property whose name is neither an array index nor \<^verbatim>\<open>length\<close>
  (the adapters read \<^verbatim>\<open>mcpServers\<close>, \<^verbatim>\<open>spectator-voice-memory\<close>,
  \<^verbatim>\<open>command\<close> and \<^verbatim>\<open>args\<close> only). On \<^verbatim>\<open>null\<close> and
  \<^verbatim>\<open>undefined\<close> it throws; a primitive has no such property.
\<close>

fun js_get :: "jsval option \<Rightarrow> string \<Rightarrow> exn + jsval option" where
  "js_get None k = Inl (TypeError (''Cannot read properties of undefined (reading '' @ k @ '')''))"
| "js_get (Some VNull) k = Inl (TypeError (''Cannot read properties of null (reading '' @ k @ '')''))"
| "js_get (Some (VObj fs)) k = Inr (map_of fs k)"
| "js_get (Some (VArr xs ps)) k = Inr (map_of ps k)"
| "js_get (Some (VBool b)) k = Inr None"
| "js_get (Some (VNum n)) k = Inr None"
| "js_get (Some (VStr s)) k = Inr None"

text \<open>
  The object after one of its named properties has been given a value: an existing
  property keeps its place, a new one goes last. A primitive holds no property.
\<close>

fun with_prop :: "jsval \<Rightarrow> string \<Rightarrow> jsval \<Rightarrow> jsval" where
  "with_prop (VObj fs) k x = VObj (AList.update k x fs)"
| "with_prop (VArr xs ps) k x = VArr xs (AList.update k x ps)"
| "with_prop v k x = v"

fun is_primitive :: "jsval \<Rightarrow> bool" where
  "is_primitive (VObj fs) = False"
| "is_primitive (VArr xs ps) = False"
| "is_primitive v = True"

text \<open>
  The assignment \<^verbatim>\<open>o[k] = x\<close> in strict mode (the body of a class is strict code):
  on a primitive it throws.
\<close>

definition js_set :: "jsval \<Rightarrow> string \<Rightarrow> jsval \<Rightarrow> exn + jsval" where
  "js_set v k x =
     (if is_primitive v then Inl (TypeError (''Cannot create property '' @ k))
      else Inr (with_prop v k x))"

text \<open>\<^verbatim>\<open>delete o[k]\<close> for a named property.\<close>

fun js_delete :: "jsval \<Rightarrow> string \<Rightarrow> jsval" where
  "js_delete (VObj fs) k = VObj (AList.delete k fs)"
| "js_delete (VArr xs ps) k = VArr xs (AList.delete k ps)"
| "js_delete v k = v"

text \<open>
  \<^verbatim>\<open>Object.assign(target, source)\<close>, the source given by its properties, which are
  assigned in order. A \<^verbatim>\<open>null\<close> or \<^verbatim>\<open>undefined\<close> target throws. On a primitive
  target the properties go to a wrapper object that is dropped, and the primitive stays
  as it is.
\<close>

fun Object_assign :: "jsval option \<Rightarrow> (string \<times> jsval) list \<Rightarrow> exn + jsval" where
  "Object_assign None source = Inl (TypeError ''Cannot convert undefined or null to object'')"
| "Object_assign (Some VNull) source = Inl (TypeError ''Cannot convert undefined or null to object'')"
| "Object_assign (Some target) source = Inr (fold (\<lambda>(k, x) t. with_prop t k x) source target)"

text \<open>Decimal numerals, for array indices and for the time stamp of a backup.\<close>

fun showNat :: "nat \<Rightarrow> string" where
  "showNat n =
     (if n < 10 then [char_of (48 + n)]
      else showNat (n div 10) @ [char_of (48 + n mod 10)])"

declare showNat.simps [simp del]

text \<open>\<^verbatim>\<open>Object.keys(v)\<close>: the own enumerable property names, array indices first.\<close>

fun Object_keys :: "jsval option \<Rightarrow> exn + string list" where
  "Object_keys None = Inl (TypeError ''Cannot convert undefined or null to object'')"
| "Object_keys (Some VNull) = Inl (TypeError ''Cannot convert undefined or null to object'')"
| "Object_keys (Some (VObj fs)) = Inr (map fst fs)"
| "Object_keys (Some (VArr xs ps)) = Inr (map showNat [0..<length xs] @ map fst ps)"
| "Object_keys (Some (VStr s)) = Inr (map showNat [0..<length s])"
| "Object_keys (Some (VBool b)) = Inr []"
| "Object_keys (Some (VNum n)) = Inr []"


section \<open>The process environment and the file system\<close>

text \<open>
  What the program reads from its surroundings and never changes. The detector
  (\<^verbatim>\<open>src/config/detector\<close>) is not among the source files at hand, so its three
  methods are parameters here; so are the path functions of the operating system,
  the home directory and the clock.
\<close>

record env =
  getConfigPath :: "string \<Rightarrow> string option \<Rightarrow> string option"
  getInstalledPlatforms :: "exn + string list"
  homedir :: string
  path_join :: "string list \<Rightarrow> string"
  dirname :: "string \<Rightarrow> string"
  now :: nat

text \<open>
  The file system: regular files with their text, directories, the paths the process
  may not write to, and the trace of the writing operations performed so far.
\<close>

datatype fs_op = Mkdir string | Write string content | Copy string string

record world =
  files :: "string \<rightharpoonup> content"
  dirs :: "string set"
  locked :: "string set"
  trace :: "fs_op list"

text \<open>An action on the file system ends with a value or an exception, and a world.\<close>

type_synonym 'a io = "world \<Rightarrow> (exn + 'a) \<times> world"

definition ret :: "'a \<Rightarrow> 'a io" where
  "ret x w = (Inr x, w)"

definition throw :: "exn \<Rightarrow> 'a io" where
  "throw e w = (Inl e, w)"

definition liftE :: "exn + 'a \<Rightarrow> 'a io" where
  "liftE r w = (r, w)"

definition andThen :: "'a io \<Rightarrow> ('a \<Rightarrow> 'b io) \<Rightarrow> 'b io" where
  "andThen m f w = (case m w of (Inl e, w') \<Rightarrow> (Inl e, w') | (Inr x, w') \<Rightarrow> f x w')"

text \<open>\<^verbatim>\<open>try { m } catch (error) { throw h(error) }\<close>\<close>

definition rethrow :: "(exn \<Rightarrow> exn) \<Rightarrow> 'a io \<Rightarrow> 'a io" where
  "rethrow h m w = (case m w of (Inl e, w') \<Rightarrow> (Inl (h e), w') | (Inr x, w') \<Rightarrow> (Inr x, w'))"

definition existsSync :: "world \<Rightarrow> string \<Rightarrow> bool" where
  "existsSync w p = (files w p \<noteq> None \<or> p \<in> dirs w)"

definition readFileSync :: "world \<Rightarrow> string \<Rightarrow> exn + content" where
  "readFileSync w p =
     (case files w p of
        Some c \<Rightarrow> Inr c
      | None \<Rightarrow>
          if p \<in> dirs w then Inl (SystemError ''EISDIR: illegal operation on a directory, read'')
          else Inl (SystemError ''ENOENT: no such file or directory''))"

text \<open>\<^verbatim>\<open>fs.mkdirSync(d, { recursive: true })\<close>\<close>

definition mkdirSync :: "string \<Rightarrow> unit io" where
  "mkdirSync d w =
     (if d \<in> locked w then (Inl (SystemError ''EACCES: permission denied, mkdir''), w)
      else if files w d \<noteq> None then (Inl (SystemError ''EEXIST: file already exists, mkdir''), w)
      else (Inr (), w\<lparr>dirs := insert d (dirs w), trace := trace w @ [Mkdir d]\<rparr>))"

definition writeFileSync :: "env \<Rightarrow> string \<Rightarrow> content \<Rightarrow> unit io" where
  "writeFileSync env p c w =
     (if p \<in> locked w then (Inl (SystemError ''EACCES: permission denied, open''), w)
      else if p \<in> dirs w then (Inl (SystemError ''EISDIR: illegal operation on a directory, open''), w)
      else if dirname env p \<notin> dirs w then (Inl (SystemError ''ENOENT: no such file or directory, open''), w)
      else (Inr (), w\<lparr>files := (files w)(p \<mapsto> c), trace := trace w @ [Write p c]\<rparr>))"

definition copyFileSync :: "string \<Rightarrow> string \<Rightarrow> unit io" where
  "copyFileSync src dst w =
     (case files w src of
        None \<Rightarrow> (Inl (SystemError ''ENOENT: no such file or directory, copyfile''), w)
      | Some c \<Rightarrow>
          if dst \<in> locked w then (Inl (SystemError ''EACCES: permission denied, copyfile''), w)
          else if dst \<in> dirs w then (Inl (SystemError ''EISDIR: illegal operation on a directory, copyfile''), w)
          else (Inr (), w\<lparr>files := (files w)(dst \<mapsto> c), trace := trace w @ [Copy src dst]\<rparr>))"

section \<open>BasePlatform\<close>

text \<open>
  \<^verbatim>\<open>getMcpServerConfig(apiKey)\<close>: an object with the one property
  \<^verbatim>\<open>spectator-voice-memory\<close>, given by its property list.
\<close>

definition canonical_entry :: "string \<Rightarrow> jsval" where
  "canonical_entry apiKey =
     VObj [(''command'', VStr ''npx''),
           (''args'', VArr [VStr ''-y'', VStr ''mcp-remote'',
                            VStr (''https://spectatorcontext.com/mcp-server/mcp/'' @ apiKey)] [])]"

definition getMcpServerConfig :: "string \<Rightarrow> (string \<times> jsval) list" where
  "getMcpServerConfig apiKey = [(''spectator-voice-memory'', canonical_entry apiKey)]"

text \<open>\<^verbatim>\<open>readConfig\<close>: \<^verbatim>\<open>null\<close> for a missing file; a failure to read or parse is wrapped.\<close>

definition readConfig :: "string \<Rightarrow> jsval io" where
  "readConfig configPath w =
     (if \<not> existsSync w configPath then (Inr VNull, w)
      else case thenE (readFileSync w configPath) JSON_parse of
             Inl error \<Rightarrow>
               (Inl (Error (''Failed to read config from '' @ configPath @ '': '' @ message error)), w)
           | Inr v \<Rightarrow> (Inr v, w))"

definition writeConfig :: "env \<Rightarrow> string \<Rightarrow> jsval \<Rightarrow> unit io" where
  "writeConfig env configPath config =
     rethrow (\<lambda>error. Error (''Failed to write config to '' @ configPath @ '': '' @ message error))
       (let dir = dirname env configPath in
        andThen (\<lambda>w. if \<not> existsSync w dir then mkdirSync dir w else (Inr (), w))
          (\<lambda>_. writeFileSync env configPath (JSON_stringify config)))"

text \<open>\<^verbatim>\<open>backupConfig\<close>: \<^verbatim>\<open>null\<close> when there is no file, else the path of the copy.\<close>

definition backupConfig :: "env \<Rightarrow> string \<Rightarrow> string option io" where
  "backupConfig env configPath w =
     (if \<not> existsSync w configPath then (Inr None, w)
      else let backupPath = configPath @ ''.backup.'' @ showNat (now env) in
           andThen (copyFileSync configPath backupPath) (\<lambda>_. ret (Some backupPath)) w)"


section \<open>Steps that the adapters share word for word\<close>

text \<open>\<^verbatim>\<open>a || b\<close>\<close>

definition js_or :: "jsval \<Rightarrow> jsval \<Rightarrow> jsval" where
  "js_or a b = (if truthy (Some a) then a else b)"

text \<open>\<^verbatim>\<open>options.scope || 'global'\<close>, the scope being a string or \<^verbatim>\<open>undefined\<close>.\<close>

definition or_default :: "string option \<Rightarrow> string \<Rightarrow> string" where
  "or_default s d = (case s of None \<Rightarrow> d | Some x \<Rightarrow> if x = [] then d else x)"

text \<open>\<^verbatim>\<open>if (!configPath) throw new Error(msg)\<close>\<close>

definition require_path :: "string option \<Rightarrow> string \<Rightarrow> exn + string" where
  "require_path configPath msg =
     (case configPath of
        None \<Rightarrow> Inl (Error msg)
      | Some p \<Rightarrow> if p = [] then Inl (Error msg) else Inr p)"

text \<open>\<^verbatim>\<open>if (!config.mcpServers) { config.mcpServers = {}; }\<close>\<close>

definition ensure_mcpServers :: "jsval \<Rightarrow> exn + jsval" where
  "ensure_mcpServers config =
     thenE (js_get (Some config) ''mcpServers'')
       (\<lambda>m. if \<not> truthy m then js_set config ''mcpServers'' (VObj []) else Inr config)"

text \<open>\<^verbatim>\<open>config.mcpServers['spectator-voice-memory']\<close>\<close>

definition spectator_entry :: "jsval \<Rightarrow> exn + jsval option" where
  "spectator_entry config =
     thenE (js_get (Some config) ''mcpServers'') (\<lambda>m. js_get m ''spectator-voice-memory'')"

text \<open>
  \<^verbatim>\<open>Object.assign(config.mcpServers, mcpConfig)\<close>: the object that
  \<^verbatim>\<open>config.mcpServers\<close> refers to is changed in place, so \<open>config\<close> holds the
  changed object afterwards.
\<close>

definition assign_servers :: "jsval \<Rightarrow> (string \<times> jsval) list \<Rightarrow> exn + jsval" where
  "assign_servers config mcpConfig =
     thenE (js_get (Some config) ''mcpServers'')
       (\<lambda>m. thenE (Object_assign m mcpConfig)
          (\<lambda>m'. Inr (with_prop config ''mcpServers'' m')))"

text \<open>\<^verbatim>\<open>Object.keys(config.mcpServers).length > 1\<close>, computed after the insert.\<close>

definition hasOtherServers_after :: "jsval \<Rightarrow> exn + bool" where
  "hasOtherServers_after config =
     thenE (js_get (Some config) ''mcpServers'')
       (\<lambda>m. thenE (Object_keys m) (\<lambda>keys. Inr (length keys > 1)))"

text \<open>
  \<^verbatim>\<open>Object.keys(config.mcpServers).filter(k => k !== 'spectator-voice-memory').length > 0\<close>,
  computed before the insert.
\<close>

definition hasOtherServers_before :: "jsval \<Rightarrow> exn + bool" where
  "hasOtherServers_before config =
     thenE (js_get (Some config) ''mcpServers'')
       (\<lambda>m. thenE (Object_keys m)
          (\<lambda>keys. Inr (length (filter (\<lambda>k. k \<noteq> ''spectator-voice-memory'') keys) > 0)))"

text \<open>
  What \<^verbatim>\<open>configure\<close> returns: the older adapters return \<^verbatim>\<open>true\<close>, the newer ones
  an object with \<^verbatim>\<open>updated\<close>, \<^verbatim>\<open>hasOtherServers\<close> and, for Claude Code,
  \<^verbatim>\<open>configPath\<close>.
\<close>

datatype configure_result =
    Ret_true
  | Ret_record "jsval option" bool "string option"

section \<open>The adapters: configure\<close>

definition Cursor_configure :: "env \<Rightarrow> string \<Rightarrow> string option \<Rightarrow> configure_result io" where
  "Cursor_configure env apiKey options_scope =
     (let scope = or_default options_scope ''global'' in
      andThen (liftE (require_path (getConfigPath env ''cursor'' (Some scope))
                        ''Could not determine Cursor configuration path'')) (\<lambda>configPath.
      andThen (readConfig configPath) (\<lambda>r.
      andThen (liftE (ensure_mcpServers (js_or r (VObj [])))) (\<lambda>config.
      andThen (liftE (spectator_entry config)) (\<lambda>isAlreadyConfigured.
      andThen (if truthy isAlreadyConfigured
               then andThen (backupConfig env configPath) (\<lambda>backupPath. ret ())
               else ret ()) (\<lambda>_.
      andThen (liftE (assign_servers config (getMcpServerConfig apiKey))) (\<lambda>config.
      andThen (writeConfig env configPath config) (\<lambda>_.
      andThen (liftE (hasOtherServers_after config)) (\<lambda>hasOtherServers.
      ret (Ret_record isAlreadyConfigured hasOtherServers None))))))))))"

definition Windsurf_configure :: "env \<Rightarrow> string \<Rightarrow> string option \<Rightarrow> configure_result io" where
  "Windsurf_configure env apiKey options_scope =
     andThen (liftE (require_path (getConfigPath env ''windsurf'' None)
                       ''Could not determine Windsurf configuration path'')) (\<lambda>configPath.
     andThen (readConfig configPath) (\<lambda>r.
     andThen (liftE (ensure_mcpServers (js_or r (VObj [])))) (\<lambda>config.
     andThen (liftE (spectator_entry config)) (\<lambda>isAlreadyConfigured.
     andThen (if truthy isAlreadyConfigured
              then andThen (backupConfig env configPath) (\<lambda>backupPath. ret ())
              else ret ()) (\<lambda>_.
     andThen (liftE (assign_servers config (getMcpServerConfig apiKey))) (\<lambda>config.
     andThen (writeConfig env configPath config) (\<lambda>_.
     andThen (liftE (hasOtherServers_after config)) (\<lambda>hasOtherServers.
     ret (Ret_record isAlreadyConfigured hasOtherServers None)))))))))"

text \<open>The older copy of the Windsurf adapter, which backs up before it reads.\<close>

definition Windsurf_old_configure :: "env \<Rightarrow> string \<Rightarrow> string option \<Rightarrow> configure_result io" where
  "Windsurf_old_configure env apiKey options_scope =
     andThen (liftE (require_path (getConfigPath env ''windsurf'' None)
                       ''Could not determine Windsurf configuration path'')) (\<lambda>configPath.
     andThen (backupConfig env configPath) (\<lambda>backupPath.
     andThen (readConfig configPath) (\<lambda>r.
     andThen (liftE (ensure_mcpServers (js_or r (VObj [])))) (\<lambda>config.
     andThen (liftE (assign_servers config (getMcpServerConfig apiKey))) (\<lambda>config.
     andThen (writeConfig env configPath config) (\<lambda>_.
     ret Ret_true))))))"

definition Claude_configure :: "env \<Rightarrow> string \<Rightarrow> string option \<Rightarrow> configure_result io" where
  "Claude_configure env apiKey options_scope =
     andThen (liftE (require_path (getConfigPath env ''claude'' None)
                       ''Could not determine Claude configuration path for this platform'')) (\<lambda>configPath.
     andThen (backupConfig env configPath) (\<lambda>backupPath.
     andThen (readConfig configPath) (\<lambda>r.
     andThen (liftE (ensure_mcpServers (js_or r (VObj [])))) (\<lambda>config.
     andThen (liftE (assign_servers config (getMcpServerConfig apiKey))) (\<lambda>config.
     andThen (writeConfig env configPath config) (\<lambda>_.
     ret Ret_true))))))"

definition Cline_configure :: "env \<Rightarrow> string \<Rightarrow> string option \<Rightarrow> configure_result io" where
  "Cline_configure env apiKey options_scope =
     andThen (liftE (require_path (getConfigPath env ''cline'' None)
                       ''Could not determine Cline configuration path. Make sure VS Code and Cline extension are installed.'')) (\<lambda>configPath.
     andThen (backupConfig env configPath) (\<lambda>backupPath.
     andThen (readConfig configPath) (\<lambda>r.
     andThen (liftE (ensure_mcpServers (js_or r (VObj [])))) (\<lambda>config.
     andThen (liftE (assign_servers config (getMcpServerConfig apiKey))) (\<lambda>config.
     andThen (writeConfig env configPath config) (\<lambda>_.
     ret Ret_true))))))"

definition VSCode_configure :: "env \<Rightarrow> string \<Rightarrow> string option \<Rightarrow> configure_result io" where
  "VSCode_configure env apiKey options_scope =
     (let scope = or_default options_scope ''project'' in
      andThen (liftE (require_path (getConfigPath env ''vscode'' (Some scope))
                        ''Could not determine VS Code configuration path'')) (\<lambda>configPath.
      andThen (backupConfig env configPath) (\<lambda>backupPath.
      andThen (readConfig configPath) (\<lambda>r.
      andThen (liftE (ensure_mcpServers (js_or r (VObj [])))) (\<lambda>config.
      andThen (liftE (assign_servers config (getMcpServerConfig apiKey))) (\<lambda>config.
      andThen (writeConfig env configPath config) (\<lambda>_.
      ret Ret_true)))))))"

text \<open>
  Claude Code does not go through \<^verbatim>\<open>readConfig\<close>, \<^verbatim>\<open>writeConfig\<close> and
  \<^verbatim>\<open>backupConfig\<close>: it reads and writes the file itself.
\<close>

definition ClaudeCode_getConfigPath :: "env \<Rightarrow> string" where
  "ClaudeCode_getConfigPath env = path_join env [homedir env, ''.claudecode'', ''settings.json'']"

text \<open>
  \<^verbatim>\<open>config.mcpServers['spectator-voice-memory'] = {...}\<close>: a strict assignment on
  the object that \<^verbatim>\<open>config.mcpServers\<close> refers to.
\<close>

definition set_spectator_entry :: "jsval \<Rightarrow> jsval \<Rightarrow> exn + jsval" where
  "set_spectator_entry config entry =
     thenE (js_get (Some config) ''mcpServers'')
       (\<lambda>m. case m of
               None \<Rightarrow> Inl (TypeError ''Cannot set properties of undefined'')
             | Some VNull \<Rightarrow> Inl (TypeError ''Cannot set properties of null'')
             | Some t \<Rightarrow> thenE (js_set t ''spectator-voice-memory'' entry)
                          (\<lambda>t'. Inr (with_prop config ''mcpServers'' t')))"

definition ClaudeCode_configure :: "env \<Rightarrow> string \<Rightarrow> string option \<Rightarrow> configure_result io" where
  "ClaudeCode_configure env apiKey options_scope =
     (let configPath = ClaudeCode_getConfigPath env;
          configDir = dirname env configPath in
      andThen (\<lambda>w. if \<not> existsSync w configDir then mkdirSync configDir w else (Inr (), w)) (\<lambda>_.
      andThen (\<lambda>w. if existsSync w configPath
                    then (thenE (readFileSync w configPath)
                            (\<lambda>content. if trim_truthy content then JSON_parse content
                                        else Inr (VObj [])), w)
                    else (Inr (VObj []), w)) (\<lambda>config.
      andThen (liftE (ensure_mcpServers config)) (\<lambda>config.
      andThen (liftE (hasOtherServers_before config)) (\<lambda>hasOtherServers.
      andThen (liftE (spectator_entry config)) (\<lambda>e.
      let isUpdated = truthy e in
      andThen (liftE (set_spectator_entry config (canonical_entry apiKey))) (\<lambda>config.
      andThen (writeFileSync env configPath (JSON_stringify config)) (\<lambda>_.
      ret (Ret_record (Some (VBool isUpdated)) hasOtherServers (Some configPath))))))))))"

text \<open>The classes, and the method call \<^verbatim>\<open>platform.configure(apiKey, { scope })\<close>.\<close>

datatype adapter =
    ClaudePlatform
  | ClaudeCode
  | CursorPlatform
  | WindsurfPlatform
  | WindsurfPlatform_old
  | VSCodePlatform
  | ClinePlatform

fun configure :: "adapter \<Rightarrow> env \<Rightarrow> string \<Rightarrow> string option \<Rightarrow> configure_result io" where
  "configure ClaudePlatform = Claude_configure"
| "configure ClaudeCode = ClaudeCode_configure"
| "configure CursorPlatform = Cursor_configure"
| "configure WindsurfPlatform = Windsurf_configure"
| "configure WindsurfPlatform_old = Windsurf_old_configure"
| "configure VSCodePlatform = VSCode_configure"
| "configure ClinePlatform = Cline_configure"


section \<open>The adapters: validate\<close>

record validation =
  valid :: bool
  error :: "string option"
  scope :: "string option"

text \<open>
  \<^verbatim>\<open>config.mcpServers && config.mcpServers['spectator-voice-memory']\<close> as a condition.
\<close>

definition has_entry :: "jsval \<Rightarrow> exn + bool" where
  "has_entry config =
     thenE (js_get (Some config) ''mcpServers'')
       (\<lambda>m. if \<not> truthy m then Inr False
             else thenE (js_get m ''spectator-voice-memory'') (\<lambda>e. Inr (truthy e)))"

text \<open>
  \<^verbatim>\<open>!configPath || !fs.existsSync(configPath)\<close>: \<open>None\<close> when the condition holds,
  else the path.
\<close>

definition existing_path :: "world \<Rightarrow> string option \<Rightarrow> string option" where
  "existing_path w configPath =
     (case configPath of
        None \<Rightarrow> None
      | Some p \<Rightarrow> if p = [] \<or> \<not> existsSync w p then None else Some p)"

text \<open>
  The body shared by the single-path adapters, after the path has been found to exist:
  the \<^verbatim>\<open>try\<close> block with its \<^verbatim>\<open>catch\<close>.
\<close>

definition validate_file :: "world \<Rightarrow> string \<Rightarrow> exn + validation" where
  "validate_file w configPath =
     (case thenE (fst (readConfig configPath w)) has_entry of
        Inl err \<Rightarrow> Inr \<lparr>valid = False, error = Some (message err), scope = None\<rparr>
      | Inr present \<Rightarrow>
          if \<not> present
          then Inr \<lparr>valid = False, error = Some ''Spectator MCP server not configured'', scope = None\<rparr>
          else Inr \<lparr>valid = True, error = None, scope = None\<rparr>)"

definition Claude_validate :: "env \<Rightarrow> world \<Rightarrow> exn + validation" where
  "Claude_validate env w =
     (case existing_path w (getConfigPath env ''claude'' None) of
        None \<Rightarrow> Inr \<lparr>valid = False, error = Some ''Configuration file not found'', scope = None\<rparr>
      | Some configPath \<Rightarrow> validate_file w configPath)"

definition Windsurf_validate :: "env \<Rightarrow> world \<Rightarrow> exn + validation" where
  "Windsurf_validate env w =
     (case existing_path w (getConfigPath env ''windsurf'' None) of
        None \<Rightarrow> Inr \<lparr>valid = False, error = Some ''Configuration file not found'', scope = None\<rparr>
      | Some configPath \<Rightarrow> validate_file w configPath)"

definition Cline_validate :: "env \<Rightarrow> world \<Rightarrow> exn + validation" where
  "Cline_validate env w =
     (case existing_path w (getConfigPath env ''cline'' None) of
        None \<Rightarrow> Inr \<lparr>valid = False,
                      error = Some ''Configuration file not found. Cline extension may not be installed.'',
                      scope = None\<rparr>
      | Some configPath \<Rightarrow> validate_file w configPath)"

text \<open>
  Cursor and VS Code look at the global and at the project file. One round of
  \<^verbatim>\<open>if (path && fs.existsSync(path)) { try { ... } catch (error) { ... } }\<close> gives the
  records pushed to \<^verbatim>\<open>results\<close>.
\<close>

definition validate_scope :: "env \<Rightarrow> world \<Rightarrow> string \<Rightarrow> string \<Rightarrow> validation list" where
  "validate_scope env w name sc =
     (case existing_path w (getConfigPath env name (Some sc)) of
        None \<Rightarrow> []
      | Some path \<Rightarrow>
          (case thenE (fst (readConfig path w)) has_entry of
             Inl err \<Rightarrow> [\<lparr>valid = False, error = Some (message err), scope = Some sc\<rparr>]
           | Inr present \<Rightarrow>
               if present then [\<lparr>valid = True, error = None, scope = Some sc\<rparr>] else []))"

definition validate_scopes :: "env \<Rightarrow> world \<Rightarrow> string \<Rightarrow> exn + validation" where
  "validate_scopes env w name =
     (let results = validate_scope env w name ''global'' @ validate_scope env w name ''project'' in
      case results of
        [] \<Rightarrow> Inr \<lparr>valid = False, error = Some ''No configuration found'', scope = None\<rparr>
      | first # _ \<Rightarrow>
          (case find valid results of
             Some validConfig \<Rightarrow> Inr validConfig
           | None \<Rightarrow> Inr first))"

definition Cursor_validate :: "env \<Rightarrow> world \<Rightarrow> exn + validation" where
  "Cursor_validate env w = validate_scopes env w ''cursor''"

definition VSCode_validate :: "env \<Rightarrow> world \<Rightarrow> exn + validation" where
  "VSCode_validate env w = validate_scopes env w ''vscode''"

definition ClaudeCode_validate :: "env \<Rightarrow> world \<Rightarrow> exn + validation" where
  "ClaudeCode_validate env w =
     (let configPath = ClaudeCode_getConfigPath env in
      if \<not> existsSync w configPath
      then Inr \<lparr>valid = False, error = Some ''Configuration file not found'', scope = None\<rparr>
      else
        case thenE (thenE (readFileSync w configPath) JSON_parse) (\<lambda>config.
             thenE (has_entry config) (\<lambda>present.
             if \<not> present
             then Inr \<lparr>valid = False, error = Some ''Spectator MCP not configured'', scope = None\<rparr>
             else thenE (spectator_entry config) (\<lambda>spectatorConfig.
                  thenE (js_get spectatorConfig ''command'') (\<lambda>command.
                  if \<not> truthy command
                  then Inr \<lparr>valid = False, error = Some ''Invalid Spectator MCP configuration'', scope = None\<rparr>
                  else thenE (js_get spectatorConfig ''args'') (\<lambda>args.
                       if \<not> truthy args
                       then Inr \<lparr>valid = False, error = Some ''Invalid Spectator MCP configuration'', scope = None\<rparr>
                       else Inr \<lparr>valid = True, error = None, scope = None\<rparr>))))) of
          Inl err \<Rightarrow> Inr \<lparr>valid = False, error = Some (''Configuration error: '' @ message err), scope = None\<rparr>
        | Inr v \<Rightarrow> Inr v)"

fun validate :: "adapter \<Rightarrow> env \<Rightarrow> world \<Rightarrow> exn + validation" where
  "validate ClaudePlatform = Claude_validate"
| "validate ClaudeCode = ClaudeCode_validate"
| "validate CursorPlatform = Cursor_validate"
| "validate WindsurfPlatform = Windsurf_validate"
| "validate WindsurfPlatform_old = Windsurf_validate"
| "validate VSCodePlatform = VSCode_validate"
| "validate ClinePlatform = Cline_validate"

section \<open>The adapters: remove\<close>

text \<open>\<^verbatim>\<open>delete config.mcpServers['spectator-voice-memory']\<close>\<close>

definition delete_spectator_entry :: "jsval \<Rightarrow> exn + jsval" where
  "delete_spectator_entry config =
     thenE (js_get (Some config) ''mcpServers'')
       (\<lambda>m. case m of
               None \<Rightarrow> Inl (TypeError ''Cannot convert undefined or null to object'')
             | Some VNull \<Rightarrow> Inl (TypeError ''Cannot convert undefined or null to object'')
             | Some t \<Rightarrow> Inr (with_prop config ''mcpServers'' (js_delete t ''spectator-voice-memory'')))"

text \<open>
  The body shared by the Claude Desktop, Windsurf and Cline adapters once the path is
  known. The result is \<^verbatim>\<open>true\<close> or \<^verbatim>\<open>false\<close>.
\<close>

definition remove_file :: "env \<Rightarrow> string \<Rightarrow> jsval option io" where
  "remove_file env configPath =
     andThen (readConfig configPath) (\<lambda>config.
     andThen (liftE (if \<not> truthy (Some config) then Inr False
                     else thenE (js_get (Some config) ''mcpServers'') (\<lambda>m. Inr (truthy m)))) (\<lambda>found.
     if \<not> found then ret (Some (VBool False))
     else andThen (liftE (spectator_entry config)) (\<lambda>e.
          if truthy e
          then andThen (liftE (delete_spectator_entry config)) (\<lambda>config.
               andThen (writeConfig env configPath config) (\<lambda>_.
               ret (Some (VBool True))))
          else ret (Some (VBool False)))))"

definition Claude_remove :: "env \<Rightarrow> jsval option io" where
  "Claude_remove env =
     andThen (liftE (require_path (getConfigPath env ''claude'' None)
                       ''Could not determine Claude configuration path''))
       (remove_file env)"

definition Windsurf_remove :: "env \<Rightarrow> jsval option io" where
  "Windsurf_remove env =
     andThen (liftE (require_path (getConfigPath env ''windsurf'' None)
                       ''Could not determine Windsurf configuration path''))
       (remove_file env)"

definition Cline_remove :: "env \<Rightarrow> jsval option io" where
  "Cline_remove env =
     andThen (liftE (require_path (getConfigPath env ''cline'' None)
                       ''Could not determine Cline configuration path''))
       (remove_file env)"

text \<open>
  Cursor and VS Code: the loop \<^verbatim>\<open>for (const scope of ['global', 'project'])\<close>, with
  the flag \<^verbatim>\<open>removed\<close> carried along.
\<close>

fun remove_scopes :: "env \<Rightarrow> string \<Rightarrow> string list \<Rightarrow> bool \<Rightarrow> bool io" where
  "remove_scopes env name [] removed = ret removed"
| "remove_scopes env name (sc # rest) removed =
     (\<lambda>w. case existing_path w (getConfigPath env name (Some sc)) of
             None \<Rightarrow> remove_scopes env name rest removed w
           | Some configPath \<Rightarrow>
               andThen (readConfig configPath) (\<lambda>config.
               andThen (liftE (if \<not> truthy (Some config) then Inr False else has_entry config)) (\<lambda>present.
               if present
               then andThen (liftE (delete_spectator_entry config)) (\<lambda>config.
                    andThen (writeConfig env configPath config) (\<lambda>_.
                    remove_scopes env name rest True))
               else remove_scopes env name rest removed)) w)"

definition Cursor_remove :: "env \<Rightarrow> jsval option io" where
  "Cursor_remove env =
     andThen (remove_scopes env ''cursor'' [''global'', ''project''] False)
       (\<lambda>removed. ret (Some (VBool removed)))"

definition VSCode_remove :: "env \<Rightarrow> jsval option io" where
  "VSCode_remove env =
     andThen (remove_scopes env ''vscode'' [''global'', ''project''] False)
       (\<lambda>removed. ret (Some (VBool removed)))"

text \<open>
  \<^verbatim>\<open>if (Object.keys(config.mcpServers).length === 0) { delete config.mcpServers; }\<close>
\<close>

definition drop_empty_servers :: "jsval \<Rightarrow> exn + jsval" where
  "drop_empty_servers config =
     thenE (js_get (Some config) ''mcpServers'')
       (\<lambda>m. thenE (Object_keys m)
          (\<lambda>keys. if length keys = 0 then Inr (js_delete config ''mcpServers'') else Inr config))"

text \<open>Claude Code's \<^verbatim>\<open>remove\<close> returns nothing: its value is \<^verbatim>\<open>undefined\<close>.\<close>

definition ClaudeCode_remove :: "env \<Rightarrow> jsval option io" where
  "ClaudeCode_remove env =
     (let configPath = ClaudeCode_getConfigPath env in
      (\<lambda>w. if \<not> existsSync w configPath then (Inr None, w)
            else
              rethrow (\<lambda>err. Error (''Failed to remove configuration: '' @ message err))
                (andThen (liftE (thenE (readFileSync w configPath) JSON_parse)) (\<lambda>config.
                 andThen (liftE (has_entry config)) (\<lambda>present.
                 if present
                 then andThen (liftE (delete_spectator_entry config)) (\<lambda>config.
                      andThen (liftE (drop_empty_servers config)) (\<lambda>config.
                      andThen (writeFileSync env configPath (JSON_stringify config)) (\<lambda>_.
                      ret None)))
                 else ret None))) w))"

fun remove :: "adapter \<Rightarrow> env \<Rightarrow> jsval option io" where
  "remove ClaudePlatform = Claude_remove"
| "remove ClaudeCode = ClaudeCode_remove"
| "remove CursorPlatform = Cursor_remove"
| "remove WindsurfPlatform = Windsurf_remove"
| "remove WindsurfPlatform_old = Windsurf_remove"
| "remove VSCodePlatform = VSCode_remove"
| "remove ClinePlatform = Cline_remove"


section \<open>The command dispatcher: setup\<close>

text \<open>The table of \<^verbatim>\<open>platforms/index.js\<close>.\<close>

definition platforms :: "string \<Rightarrow> adapter option" where
  "platforms name =
     (if name = ''claude'' then Some ClaudePlatform
      else if name = ''claudecode'' then Some ClaudeCode
      else if name = ''cursor'' then Some CursorPlatform
      else if name = ''windsurf'' then Some WindsurfPlatform
      else if name = ''vscode'' then Some VSCodePlatform
      else if name = ''cline'' then Some ClinePlatform
      else None)"

text \<open>\<^verbatim>\<open>s.split(',')\<close>, \<^verbatim>\<open>s.trim()\<close> and \<^verbatim>\<open>s.toLowerCase()\<close> on ASCII text.\<close>

fun split_on :: "char \<Rightarrow> string \<Rightarrow> string list" where
  "split_on c [] = [[]]"
| "split_on c (x # xs) =
     (if x = c then [] # split_on c xs
      else case split_on c xs of
             [] \<Rightarrow> [[x]]
           | y # ys \<Rightarrow> (x # y) # ys)"

definition is_space :: "char \<Rightarrow> bool" where
  "is_space c = (c \<in> set [CHR '' '', CHR 0x09, CHR 0x0A, CHR 0x0B, CHR 0x0C, CHR 0x0D])"

definition trim :: "string \<Rightarrow> string" where
  "trim s = rev (dropWhile is_space (rev (dropWhile is_space s)))"

definition toLowerCase :: "string \<Rightarrow> string" where
  "toLowerCase s =
     map (\<lambda>c. if 65 \<le> (of_char c :: nat) \<and> (of_char c :: nat) \<le> 90
               then char_of ((of_char c :: nat) + 32) else c) s"

text \<open>
  The options of \<^verbatim>\<open>runSetup\<close>. A key that is missing is asked for at the terminal;
  the answer is a parameter of the model.
\<close>

record setup_options =
  opt_apiKey :: "string option"
  opt_platforms :: "string option"
  opt_scope :: "string option"

text \<open>One element of \<^verbatim>\<open>results\<close>.\<close>

record outcome =
  r_platform :: string
  r_success :: bool
  r_updated :: bool
  r_hasOtherServers :: bool
  r_error :: "string option"

text \<open>\<^verbatim>\<open>result?.updated\<close> and \<^verbatim>\<open>result?.hasOtherServers\<close>\<close>

fun result_updated :: "configure_result \<Rightarrow> jsval option" where
  "result_updated Ret_true = None"
| "result_updated (Ret_record u h c) = u"

fun result_hasOtherServers :: "configure_result \<Rightarrow> jsval option" where
  "result_hasOtherServers Ret_true = None"
| "result_hasOtherServers (Ret_record u h c) = Some (VBool h)"

text \<open>
  The loop over \<^verbatim>\<open>platformsToConfig\<close>: a name without a class is skipped, an
  exception of \<^verbatim>\<open>configure\<close> is caught and recorded, and the loop goes on in the
  world that the call has left.
\<close>

fun configure_each ::
  "env \<Rightarrow> string \<Rightarrow> string option \<Rightarrow> string list \<Rightarrow> world \<Rightarrow> outcome list \<times> world" where
  "configure_each env apiKey sc [] w = ([], w)"
| "configure_each env apiKey sc (platformName # rest) w =
     (case platforms platformName of
        None \<Rightarrow> configure_each env apiKey sc rest w
      | Some PlatformClass \<Rightarrow>
          (case configure PlatformClass env apiKey sc w of
             (Inr result, w') \<Rightarrow>
               (let (results, w'') = configure_each env apiKey sc rest w' in
                (\<lparr>r_platform = platformName, r_success = True,
                  r_updated = truthy (result_updated result),
                  r_hasOtherServers = truthy (result_hasOtherServers result),
                  r_error = None\<rparr> # results, w''))
           | (Inl err, w') \<Rightarrow>
               (let (results, w'') = configure_each env apiKey sc rest w' in
                (\<lparr>r_platform = platformName, r_success = False,
                  r_updated = False, r_hasOtherServers = False,
                  r_error = Some (message err)\<rparr> # results, w''))))"

text \<open>
  \<^verbatim>\<open>platformsToConfig\<close>: the names asked for with \<^verbatim>\<open>--platforms\<close>, if any and
  not \<^verbatim>\<open>all\<close>, else the installed ones.
\<close>

definition requested_platforms :: "setup_options \<Rightarrow> string list option" where
  "requested_platforms options =
     (case opt_platforms options of
        None \<Rightarrow> None
      | Some ps \<Rightarrow>
          if ps \<noteq> [] \<and> ps \<noteq> ''all''
          then Some (map (\<lambda>p. toLowerCase (trim p)) (split_on (CHR '','') ps))
          else None)"

text \<open>
  \<^verbatim>\<open>runSetup\<close>. The first component of the result is \<open>Some c\<close> when the run ends in
  \<^verbatim>\<open>process.exit(c)\<close> and \<open>None\<close> when the function returns. Output to the terminal
  is not modelled.
\<close>

definition runSetup :: "env \<Rightarrow> string \<Rightarrow> setup_options \<Rightarrow> world \<Rightarrow> nat option \<times> world" where
  "runSetup env promptAnswer options w =
     (let apiKey = (case opt_apiKey options of
                      None \<Rightarrow> promptAnswer
                    | Some k \<Rightarrow> if k = [] then promptAnswer else k) in
      case getInstalledPlatforms env of
        Inl err \<Rightarrow> (Some 1, w)
      | Inr installedPlatforms \<Rightarrow>
          if length installedPlatforms = 0 then (Some 1, w)
          else
            let platformsToConfig =
                  (case requested_platforms options of
                     None \<Rightarrow> installedPlatforms
                   | Some ps \<Rightarrow> ps);
                invalidPlatforms =
                  (case requested_platforms options of
                     None \<Rightarrow> []
                   | Some ps \<Rightarrow> filter (\<lambda>p. p \<notin> set installedPlatforms) ps)
            in
            if length invalidPlatforms > 0 then (Some 1, w)
            else
              let (results, w') = configure_each env apiKey (opt_scope options) platformsToConfig w;
                  successful = filter r_success results
              in if length successful > 0 then (None, w') else (Some 1, w'))"

text \<open>
  The exit status of the process when \<^verbatim>\<open>runSetup\<close> is left to run to its end, as it
  is after \<^verbatim>\<open>program.parse\<close>: that of \<^verbatim>\<open>process.exit\<close> if it was called, else 0.
\<close>

definition exit_status :: "nat option \<times> world \<Rightarrow> nat" where
  "exit_status r = (case fst r of None \<Rightarrow> 0 | Some c \<Rightarrow> c)"

section \<open>Vocabulary of the properties\<close>

text \<open>
  The paths an adapter looks at in \<^verbatim>\<open>validate\<close> and \<^verbatim>\<open>remove\<close>: one for the
  single-path adapters, the global and the project path for Cursor and VS Code.
\<close>

definition config_paths :: "adapter \<Rightarrow> env \<Rightarrow> string option list" where
  "config_paths a env =
     (case a of
        ClaudePlatform \<Rightarrow> [getConfigPath env ''claude'' None]
      | ClaudeCode \<Rightarrow> [Some (ClaudeCode_getConfigPath env)]
      | CursorPlatform \<Rightarrow>
          [getConfigPath env ''cursor'' (Some ''global''), getConfigPath env ''cursor'' (Some ''project'')]
      | WindsurfPlatform \<Rightarrow> [getConfigPath env ''windsurf'' None]
      | WindsurfPlatform_old \<Rightarrow> [getConfigPath env ''windsurf'' None]
      | VSCodePlatform \<Rightarrow>
          [getConfigPath env ''vscode'' (Some ''global''), getConfigPath env ''vscode'' (Some ''project'')]
      | ClinePlatform \<Rightarrow> [getConfigPath env ''cline'' None])"

text \<open>Nothing exists at the path, if there is a path at all.\<close>

definition no_file_at :: "world \<Rightarrow> string option \<Rightarrow> bool" where
  "no_file_at w cp = (case cp of None \<Rightarrow> True | Some p \<Rightarrow> \<not> existsSync w p)"

subsection \<open>The adapters by their common text\<close>

text \<open>
  The text that the Claude Desktop, VS Code, Cline and older Windsurf adapters share
  after they have found their path, then the text shared by Cursor and Windsurf, then
  the body of Claude Code with the path as an argument.
\<close>

definition legacy_body :: "env \<Rightarrow> string \<Rightarrow> string \<Rightarrow> configure_result io" where
  "legacy_body env apiKey configPath =
     andThen (backupConfig env configPath) (\<lambda>backupPath.
     andThen (readConfig configPath) (\<lambda>r.
     andThen (liftE (ensure_mcpServers (js_or r (VObj [])))) (\<lambda>config.
     andThen (liftE (assign_servers config (getMcpServerConfig apiKey))) (\<lambda>config.
     andThen (writeConfig env configPath config) (\<lambda>_.
     ret Ret_true)))))"

definition tracked_body :: "env \<Rightarrow> string \<Rightarrow> string \<Rightarrow> configure_result io" where
  "tracked_body env apiKey configPath =
     andThen (readConfig configPath) (\<lambda>r.
     andThen (liftE (ensure_mcpServers (js_or r (VObj [])))) (\<lambda>config.
     andThen (liftE (spectator_entry config)) (\<lambda>isAlreadyConfigured.
     andThen (if truthy isAlreadyConfigured
              then andThen (backupConfig env configPath) (\<lambda>backupPath. ret ())
              else ret ()) (\<lambda>_.
     andThen (liftE (assign_servers config (getMcpServerConfig apiKey))) (\<lambda>config.
     andThen (writeConfig env configPath config) (\<lambda>_.
     andThen (liftE (hasOtherServers_after config)) (\<lambda>hasOtherServers.
     ret (Ret_record isAlreadyConfigured hasOtherServers None))))))))"

definition claudecode_body :: "env \<Rightarrow> string \<Rightarrow> string \<Rightarrow> configure_result io" where
  "claudecode_body env apiKey configPath =
     (let configDir = dirname env configPath in
      andThen (\<lambda>w. if \<not> existsSync w configDir then mkdirSync configDir w else (Inr (), w)) (\<lambda>_.
      andThen (\<lambda>w. if existsSync w configPath
                    then (thenE (readFileSync w configPath)
                            (\<lambda>content. if trim_truthy content then JSON_parse content
                                        else Inr (VObj [])), w)
                    else (Inr (VObj []), w)) (\<lambda>config.
      andThen (liftE (ensure_mcpServers config)) (\<lambda>config.
      andThen (liftE (hasOtherServers_before config)) (\<lambda>hasOtherServers.
      andThen (liftE (spectator_entry config)) (\<lambda>e.
      let isUpdated = truthy e in
      andThen (liftE (set_spectator_entry config (canonical_entry apiKey))) (\<lambda>config.
      andThen (writeFileSync env configPath (JSON_stringify config)) (\<lambda>_.
      ret (Ret_record (Some (VBool isUpdated)) hasOtherServers (Some configPath))))))))))"

text \<open>
  The path that \<^verbatim>\<open>configure\<close> works on, as its first lines compute it:
  \<open>None\<close> where they throw.
\<close>

definition resolved :: "string option \<Rightarrow> string option" where
  "resolved cp = (case cp of None \<Rightarrow> None | Some p \<Rightarrow> if p = [] then None else Some p)"

definition configure_path :: "adapter \<Rightarrow> env \<Rightarrow> string option \<Rightarrow> string option" where
  "configure_path a env sc =
     (case a of
        ClaudePlatform \<Rightarrow> resolved (getConfigPath env ''claude'' None)
      | ClaudeCode \<Rightarrow> Some (ClaudeCode_getConfigPath env)
      | CursorPlatform \<Rightarrow> resolved (getConfigPath env ''cursor'' (Some (or_default sc ''global'')))
      | WindsurfPlatform \<Rightarrow> resolved (getConfigPath env ''windsurf'' None)
      | WindsurfPlatform_old \<Rightarrow> resolved (getConfigPath env ''windsurf'' None)
      | VSCodePlatform \<Rightarrow> resolved (getConfigPath env ''vscode'' (Some (or_default sc ''project'')))
      | ClinePlatform \<Rightarrow> resolved (getConfigPath env ''cline'' None))"

definition configure_body :: "adapter \<Rightarrow> env \<Rightarrow> string \<Rightarrow> string \<Rightarrow> configure_result io" where
  "configure_body a =
     (case a of
        ClaudeCode \<Rightarrow> claudecode_body
      | CursorPlatform \<Rightarrow> tracked_body
      | WindsurfPlatform \<Rightarrow> tracked_body
      | _ \<Rightarrow> legacy_body)"

text \<open>\<^verbatim>\<open>`${configPath}.backup.${Date.now()}`\<close>\<close>

definition backup_path :: "env \<Rightarrow> string \<Rightarrow> string" where
  "backup_path env p = p @ ''.backup.'' @ showNat (now env)"

subsection \<open>Effects of configure\<close>

text \<open>
  The configuration object after the two steps "ensure \<^verbatim>\<open>mcpServers\<close>" and
  "assign the entry", and the value that the adapters compute from the text of the file
  (\<open>None\<close>: no file) on the way to the object they write.
\<close>

definition upsert :: "string \<Rightarrow> jsval \<Rightarrow> exn + jsval" where
  "upsert k config = thenE (ensure_mcpServers config) (\<lambda>c. assign_servers c (getMcpServerConfig k))"

definition read_value :: "content option \<Rightarrow> exn + jsval" where
  "read_value c = (case c of None \<Rightarrow> Inr VNull | Some c \<Rightarrow> JSON_parse c)"

definition claudecode_read_value :: "content option \<Rightarrow> exn + jsval" where
  "claudecode_read_value c =
     (case c of
        None \<Rightarrow> Inr (VObj [])
      | Some c \<Rightarrow> if trim_truthy c then JSON_parse c else Inr (VObj []))"

definition written_config :: "adapter \<Rightarrow> string \<Rightarrow> content option \<Rightarrow> exn + jsval" where
  "written_config a k c =
     (case a of
        ClaudeCode \<Rightarrow>
          thenE (claudecode_read_value c) (\<lambda>v.
          thenE (ensure_mcpServers v) (\<lambda>c. set_spectator_entry c (canonical_entry k)))
      | _ \<Rightarrow> thenE (read_value c) (\<lambda>v. upsert k (js_or v (VObj []))))"

text \<open>
  The test of Cursor and Windsurf, \<^verbatim>\<open>isAlreadyConfigured\<close>, as a property of the
  text of the file: the entry is there and truthy.
\<close>

definition configured :: "content option \<Rightarrow> bool" where
  "configured c =
     (case thenE (read_value c) (\<lambda>v.
           thenE (ensure_mcpServers (js_or v (VObj []))) spectator_entry) of
        Inl e \<Rightarrow> False
      | Inr e \<Rightarrow> truthy e)"

text \<open>When an adapter copies the file before it writes, and whether the copy can be made.\<close>

definition backup_due :: "adapter \<Rightarrow> world \<Rightarrow> string \<Rightarrow> bool" where
  "backup_due a w p =
     (case a of
        ClaudeCode \<Rightarrow> False
      | CursorPlatform \<Rightarrow> configured (files w p)
      | WindsurfPlatform \<Rightarrow> configured (files w p)
      | _ \<Rightarrow> files w p \<noteq> None)"

definition copy_allowed :: "env \<Rightarrow> world \<Rightarrow> string \<Rightarrow> bool" where
  "copy_allowed env w p = (backup_path env p \<notin> locked w \<and> backup_path env p \<notin> dirs w)"

text \<open>
  What a call of \<^verbatim>\<open>configure\<close> may do to the file system: the operations it adds to
  the trace begin with the backup, if one is made, and hold no other copy; the file
  keeps its text or receives the printed configuration; no other file changes; the
  backup holds the former text.
\<close>

definition effect_ok ::
  "env \<Rightarrow> string \<Rightarrow> bool \<Rightarrow> (exn + jsval) \<Rightarrow> world \<Rightarrow> world \<Rightarrow> bool" where
  "effect_ok env p backed cfg w w' =
     ((\<exists>ops. trace w' = trace w @ (if backed then [Copy p (backup_path env p)] else []) @ ops \<and>
             (\<forall>s d. Copy s d \<notin> set ops)) \<and>
      (files w' p = files w p \<or> (\<exists>c. cfg = Inr c \<and> files w' p = Some (JSON_stringify c))) \<and>
      (\<forall>q. q \<noteq> p \<longrightarrow> q \<noteq> backup_path env p \<longrightarrow> files w' q = files w q) \<and>
      (backed \<longrightarrow> files w' (backup_path env p) = files w p))"

text \<open>The four ways the writing steps can end: nothing, the directory, the file, or both.\<close>

definition wrote :: "env \<Rightarrow> string \<Rightarrow> (exn + jsval) \<Rightarrow> world \<Rightarrow> world \<Rightarrow> bool" where
  "wrote env p C w1 w' =
     (w' = w1 \<or>
      w' = w1\<lparr>dirs := insert (dirname env p) (dirs w1), trace := trace w1 @ [Mkdir (dirname env p)]\<rparr> \<or>
      (\<exists>c. C = Inr c \<and>
         (w' = w1\<lparr>files := (files w1)(p \<mapsto> JSON_stringify c),
                  trace := trace w1 @ [Write p (JSON_stringify c)]\<rparr> \<or>
          w' = w1\<lparr>dirs := insert (dirname env p) (dirs w1), files := (files w1)(p \<mapsto> JSON_stringify c),
                  trace := trace w1 @ [Mkdir (dirname env p), Write p (JSON_stringify c)]\<rparr>)))"

text \<open>
  The object that receives the entry, and the properties of the configuration object
  after the insert, for a configuration that is an object.
\<close>

definition servers_or_empty :: "(string \<times> jsval) list \<Rightarrow> jsval" where
  "servers_or_empty fs =
     (case map_of fs ''mcpServers'' of
        None \<Rightarrow> VObj []
      | Some t \<Rightarrow> if truthy (Some t) then t else VObj [])"

definition upsert_obj :: "string \<Rightarrow> (string \<times> jsval) list \<Rightarrow> (string \<times> jsval) list" where
  "upsert_obj k fs =
     AList.update ''mcpServers''
       (with_prop (servers_or_empty fs) ''spectator-voice-memory'' (canonical_entry k)) fs"

text \<open>The entries of \<^verbatim>\<open>mcpServers\<close> in a document, when it is an object.\<close>

definition servers_of :: "(string \<times> json) list \<Rightarrow> (string \<times> json) list" where
  "servers_of flds = (case map_of flds ''mcpServers'' of Some (JObj s) \<Rightarrow> s | _ \<Rightarrow> [])"

subsection \<open>Successful runs of configure\<close>

text \<open>
  The entry as JSON, and the documents of the data model: a JSON object whose
  \<^verbatim>\<open>mcpServers\<close> field is missing, falsy or an object. For such a document the
  insert has a closed form.
\<close>

definition canonical_json :: "string \<Rightarrow> json" where
  "canonical_json apiKey =
     JObj [(''command'', JStr ''npx''),
           (''args'', JArr [JStr ''-y'', JStr ''mcp-remote'',
                            JStr (''https://spectatorcontext.com/mcp-server/mcp/'' @ apiKey)])]"

fun servers_ok :: "json option \<Rightarrow> bool" where
  "servers_ok None = True"
| "servers_ok (Some (JObj s)) = True"
| "servers_ok (Some JNull) = True"
| "servers_ok (Some (JBool b)) = (\<not> b)"
| "servers_ok (Some (JNum n)) = (n = 0)"
| "servers_ok (Some (JStr s)) = (s = [])"
| "servers_ok (Some (JArr xs)) = False"

definition registry_doc :: "(string \<times> json) list \<Rightarrow> bool" where
  "registry_doc flds = servers_ok (map_of flds ''mcpServers'')"

definition put_entry :: "string \<Rightarrow> (string \<times> json) list \<Rightarrow> (string \<times> json) list" where
  "put_entry apiKey flds =
     AList.update ''mcpServers''
       (JObj (AList.update ''spectator-voice-memory'' (canonical_json apiKey) (servers_of flds)))
       flds"

text \<open>The entry found before the insert, as the program sees it.\<close>

definition entry_of :: "(string \<times> json) list \<Rightarrow> jsval option" where
  "entry_of flds = map_option of_json (map_of (servers_of flds) ''spectator-voice-memory'')"

text \<open>
  What \<^verbatim>\<open>configure\<close> returns and the world it leaves when every step succeeds,
  for a file that holds the document \<open>flds\<close> (the empty list for a missing file).
\<close>

definition expected_result ::
  "adapter \<Rightarrow> string \<Rightarrow> string \<Rightarrow> (string \<times> json) list \<Rightarrow> configure_result" where
  "expected_result a apiKey p flds =
     (case a of
        ClaudeCode \<Rightarrow>
          Ret_record (Some (VBool (truthy (entry_of flds))))
            (length (filter (\<lambda>k. k \<noteq> ''spectator-voice-memory'') (map fst (servers_of flds))) > 0)
            (Some p)
      | CursorPlatform \<Rightarrow>
          Ret_record (entry_of flds)
            (length (AList.update ''spectator-voice-memory'' (canonical_json apiKey) (servers_of flds)) > 1)
            None
      | WindsurfPlatform \<Rightarrow>
          Ret_record (entry_of flds)
            (length (AList.update ''spectator-voice-memory'' (canonical_json apiKey) (servers_of flds)) > 1)
            None
      | _ \<Rightarrow> Ret_true)"

definition after_configure ::
  "adapter \<Rightarrow> env \<Rightarrow> string \<Rightarrow> string \<Rightarrow> (string \<times> json) list \<Rightarrow> world \<Rightarrow> world" where
  "after_configure a env apiKey p flds w =
     w\<lparr>dirs := insert (dirname env p) (dirs w),
       files := (if backup_due a w p then (files w)(backup_path env p := files w p) else files w)
                  (p \<mapsto> Json (JObj (put_entry apiKey flds))),
       trace := trace w @ (if backup_due a w p then [Copy p (backup_path env p)] else []) @
                (if dirname env p \<in> dirs w then [] else [Mkdir (dirname env p)]) @
                [Write p (Json (JObj (put_entry apiKey flds)))]\<rparr>"

text \<open>
  The two starting points of a successful run: nothing at the path and a parent
  directory that exists or can be made; or a file in its directory, with a backup path
  that can be written.
\<close>

definition fresh :: "env \<Rightarrow> world \<Rightarrow> string \<Rightarrow> bool" where
  "fresh env w p =
     (\<not> existsSync w p \<and> p \<notin> locked w \<and> dirname env p \<noteq> p \<and>
      (dirname env p \<in> dirs w \<or> (\<not> existsSync w (dirname env p) \<and> dirname env p \<notin> locked w)))"

definition ready :: "env \<Rightarrow> world \<Rightarrow> string \<Rightarrow> bool" where
  "ready env w p =
     (p \<notin> locked w \<and> p \<notin> dirs w \<and> dirname env p \<in> dirs w \<and> copy_allowed env w p)"

subsection \<open>Effects of remove\<close>

text \<open>
  The document that a removal leaves: the entry is taken out of \<^verbatim>\<open>mcpServers\<close>;
  Claude Code also drops an \<^verbatim>\<open>mcpServers\<close> that has become empty.
\<close>

definition without_entry :: "adapter \<Rightarrow> (string \<times> json) list \<Rightarrow> (string \<times> json) list" where
  "without_entry a flds =
     (let remaining = AList.delete ''spectator-voice-memory'' (servers_of flds) in
      if a = ClaudeCode \<and> remaining = [] then AList.delete ''mcpServers'' flds
      else AList.update ''mcpServers'' (JObj remaining) flds)"

text \<open>
  The configuration object that \<^verbatim>\<open>remove\<close> is about to write, as a function of the
  text of the file: \<open>None\<close> when the code does not reach the write.
\<close>

definition removal_of :: "content option \<Rightarrow> jsval option" where
  "removal_of c =
     (case read_value c of
        Inl e \<Rightarrow> None
      | Inr config \<Rightarrow>
          (case (if \<not> truthy (Some config) then Inr False else has_entry config) of
             Inl e \<Rightarrow> None
           | Inr present \<Rightarrow>
               if present
               then (case delete_spectator_entry config of Inl e \<Rightarrow> None | Inr c \<Rightarrow> Some c)
               else None))"

text \<open>
  What \<^verbatim>\<open>remove\<close> may do to the files: each file keeps its text, or it held a
  document with a truthy entry and now holds that document without the entry.
\<close>

definition rewritten :: "adapter \<Rightarrow> string \<Rightarrow> world \<Rightarrow> world \<Rightarrow> bool" where
  "rewritten a p w w' =
     (files w' = files w \<or>
      (\<exists>flds. files w p = Some (Json (JObj flds)) \<and> truthy (entry_of flds) \<and>
         files w' = (files w)(p \<mapsto> Json (JObj (without_entry a flds)))))"

definition removal_ok :: "adapter \<Rightarrow> world \<Rightarrow> world \<Rightarrow> bool" where
  "removal_ok a w w' =
     (\<forall>q. files w' q = files w q \<or>
        (\<exists>flds. files w q = Some (Json (JObj flds)) \<and> truthy (entry_of flds) \<and>
           files w' q = Some (Json (JObj (without_entry a flds)))))"

text \<open>
  The starting point "nothing to remove": at each path of the adapter there is nothing,
  or a document without a truthy entry. The single-path adapters throw when their path
  cannot be determined, Cursor and VS Code skip such a scope.
\<close>

definition no_entry_at :: "world \<Rightarrow> string option \<Rightarrow> bool" where
  "no_entry_at w cp =
     (case resolved cp of
        None \<Rightarrow> True
      | Some p \<Rightarrow>
          \<not> existsSync w p \<or>
          (\<exists>flds. files w p = Some (Json (JObj flds)) \<and> \<not> truthy (entry_of flds)))"

definition paths_known :: "adapter \<Rightarrow> env \<Rightarrow> bool" where
  "paths_known a env =
     (case a of
        CursorPlatform \<Rightarrow> True
      | VSCodePlatform \<Rightarrow> True
      | _ \<Rightarrow> list_all (\<lambda>cp. resolved cp \<noteq> None) (config_paths a env))"

text \<open>
  The world after a removal that succeeds at the path \<open>p\<close>, whose file held the document
  \<open>flds\<close>; and the starting point of a removal that finds exactly this file: \<open>p\<close> is one
  of the adapter's paths, and at its other paths nothing exists (nor will the backup of
  \<open>p\<close> be put there).
\<close>

definition after_remove :: "adapter \<Rightarrow> string \<Rightarrow> (string \<times> json) list \<Rightarrow> world \<Rightarrow> world" where
  "after_remove a p flds w =
     w\<lparr>files := (files w)(p \<mapsto> Json (JObj (without_entry a flds))),
       trace := trace w @ [Write p (Json (JObj (without_entry a flds)))]\<rparr>"

definition elsewhere_empty :: "env \<Rightarrow> world \<Rightarrow> string \<Rightarrow> string option \<Rightarrow> bool" where
  "elsewhere_empty env w p cp =
     (case resolved cp of
        None \<Rightarrow> True
      | Some q \<Rightarrow> q = p \<or> (\<not> existsSync w q \<and> q \<noteq> backup_path env p))"

definition remove_reaches :: "adapter \<Rightarrow> env \<Rightarrow> world \<Rightarrow> string \<Rightarrow> bool" where
  "remove_reaches a env w p =
     (list_ex (\<lambda>cp. resolved cp = Some p) (config_paths a env) \<and>
      list_all (elsewhere_empty env w p) (config_paths a env))"

subsection \<open>Outcome of setup\<close>

text \<open>
  The key that \<^verbatim>\<open>runSetup\<close> works with, the platforms it targets, and "some targeted
  platform is configured successfully": the platforms are taken in order, each
  \<^verbatim>\<open>configure\<close> runs in the world that the failed ones before it have left, and a name
  without an adapter class is passed over.
\<close>

definition setup_key :: "string \<Rightarrow> setup_options \<Rightarrow> string" where
  "setup_key promptAnswer options =
     (case opt_apiKey options of None \<Rightarrow> promptAnswer | Some k \<Rightarrow> if k = [] then promptAnswer else k)"

definition targeted :: "string list \<Rightarrow> setup_options \<Rightarrow> string list" where
  "targeted installed options =
     (case requested_platforms options of None \<Rightarrow> installed | Some ps \<Rightarrow> ps)"

fun some_success :: "env \<Rightarrow> string \<Rightarrow> string option \<Rightarrow> string list \<Rightarrow> world \<Rightarrow> bool" where
  "some_success env apiKey sc [] w = False"
| "some_success env apiKey sc (name # rest) w =
     (case platforms name of
        None \<Rightarrow> some_success env apiKey sc rest w
      | Some a \<Rightarrow>
          (case configure a env apiKey sc w of
             (Inr result, w') \<Rightarrow> True
           | (Inl err, w') \<Rightarrow> some_success env apiKey sc rest w'))"

subsection \<open>A sample environment\<close>

text \<open>
  A POSIX-like environment for the concrete instances below: every platform has its
  configuration under the home directory, the project scope under \<^verbatim>\<open>/work\<close>.
\<close>

fun sample_join :: "string list \<Rightarrow> string" where
  "sample_join [] = ''.''"
| "sample_join [x] = x"
| "sample_join (x # y # ys) = x @ ''/'' @ sample_join (y # ys)"

definition sample_dirname :: "string \<Rightarrow> string" where
  "sample_dirname p =
     (let up_to_slash = rev (dropWhile (\<lambda>c. c \<noteq> CHR ''/'') (rev p)) in
      if up_to_slash = [] then ''.''
      else if butlast up_to_slash = [] then ''/''
      else butlast up_to_slash)"

definition sample_getConfigPath :: "string \<Rightarrow> string option \<Rightarrow> string option" where
  "sample_getConfigPath name sc =
     (if sc = Some ''project'' then Some (''/work/.'' @ name @ ''/mcp.json'')
      else Some (''/home/u/.'' @ name @ ''/mcp.json''))"

definition sample_env :: env where
  "sample_env =
     \<lparr>getConfigPath = sample_getConfigPath,
      getInstalledPlatforms = Inr [''cursor''],
      homedir = ''/home/u'',
      path_join = sample_join,
      dirname = sample_dirname,
      now = 1700000000000\<rparr>"

definition empty_world :: world where
  "empty_world = \<lparr>files = Map.empty, dirs = {''/home/u'', ''/work''}, locked = {}, trace = []\<rparr>"

text \<open>
  A world with one configuration file, its directory in place, and the document of a
  user who has another tool configured:
  \<^verbatim>\<open>{"mcpServers":{"other-tool":{"command":"x","args":[]}}}\<close>.
\<close>

definition world_with :: "string \<Rightarrow> string \<Rightarrow> content \<Rightarrow> world" where
  "world_with dir p c =
     \<lparr>files = [p \<mapsto> c], dirs = {''/home/u'', ''/work'', dir}, locked = {}, trace = []\<rparr>"

definition other_tool_fields :: "(string \<times> json) list" where
  "other_tool_fields =
     [(''mcpServers'', JObj [(''other-tool'', JObj [(''command'', JStr ''x''), (''args'', JArr [])])])]"

definition cursor_world :: world where
  "cursor_world = world_with ''/home/u/.cursor'' ''/home/u/.cursor/mcp.json'' (Json (JObj other_tool_fields))"

definition vscode_world :: world where
  "vscode_world = world_with ''/home/u/.vscode'' ''/home/u/.vscode/mcp.json'' (Json (JObj other_tool_fields))"

definition claudecode_world :: world where
  "claudecode_world =
     world_with ''/home/u/.claudecode'' ''/home/u/.claudecode/settings.json'' (Json (JObj other_tool_fields))"

text \<open>Cursor's global file holding the empty document \<^verbatim>\<open>{}\<close>.\<close>

definition empty_doc_world :: world where
  "empty_doc_world = world_with ''/home/u/.cursor'' ''/home/u/.cursor/mcp.json'' (Json (JObj []))"

section \<open>Properties\<close>

subsection \<open>Basic facts\<close>

lemma ret_apply [simp]: "ret x w = (Inr x, w)"
  by (simp add: ret_def)

lemma throw_apply [simp]: "throw e w = (Inl e, w)"
  by (simp add: throw_def)

lemma liftE_apply [simp]: "liftE r w = (r, w)"
  by (simp add: liftE_def)

lemma andThen_liftE [simp]:
  "andThen (liftE r) f w = (case r of Inl e \<Rightarrow> (Inl e, w) | Inr x \<Rightarrow> f x w)"
  by (simp add: andThen_def liftE_def split: sum.splits)

lemma andThen_ret [simp]: "andThen (ret x) f w = f x w"
  by (simp add: andThen_def ret_def)

lemma existing_path_no_file: "no_file_at w cp \<Longrightarrow> existing_path w cp = None"
  by (cases cp) (auto simp: existing_path_def no_file_at_def)

subsection \<open>Validation without a configuration file\<close>

text \<open>
  Claim C7. For every adapter, when nothing exists at any path the adapter looks at,
  \<^verbatim>\<open>validate\<close> does not throw: it returns a record with \<^verbatim>\<open>valid: false\<close> and an
  error message that is not empty.
\<close>

theorem validate_without_file:
  assumes "list_all (no_file_at w) (config_paths a env)"
  shows "\<exists>msg. validate a env w = Inr \<lparr>valid = False, error = Some msg, scope = None\<rparr> \<and> msg \<noteq> []"
  using assms
  by (cases a)
     (auto simp: config_paths_def Claude_validate_def Windsurf_validate_def Cline_validate_def
        Cursor_validate_def VSCode_validate_def ClaudeCode_validate_def validate_scopes_def
        validate_scope_def existing_path_no_file no_file_at_def)

theorem validate_without_file_witness:
  "list_all (no_file_at empty_world) (config_paths CursorPlatform sample_env) \<and>
   (\<exists>msg. validate CursorPlatform sample_env empty_world =
            Inr \<lparr>valid = False, error = Some msg, scope = None\<rparr> \<and> msg \<noteq> [])"
proof -
  have h: "list_all (no_file_at empty_world) (config_paths CursorPlatform sample_env)"
    by (simp add: config_paths_def no_file_at_def existsSync_def empty_world_def sample_env_def
        sample_getConfigPath_def)
  from validate_without_file [OF h] h show ?thesis by simp
qed

subsection \<open>The adapters through their common text\<close>

lemma require_path_resolved:
  "require_path cp msg = (case resolved cp of None \<Rightarrow> Inl (Error msg) | Some p \<Rightarrow> Inr p)"
  by (simp add: require_path_def resolved_def split: option.splits)

lemma configure_unfold:
  "configure a env k sc w =
     (case configure_path a env sc of
        None \<Rightarrow> (fst (configure a env k sc w), w)
      | Some p \<Rightarrow> configure_body a env k p w)"
proof (cases a)
  case ClaudePlatform
  then show ?thesis
    by (simp add: Claude_configure_def legacy_body_def configure_path_def configure_body_def
        require_path_resolved split: option.splits)
next
  case ClaudeCode
  then show ?thesis
    by (simp add: ClaudeCode_configure_def claudecode_body_def configure_path_def configure_body_def Let_def)
next
  case CursorPlatform
  then show ?thesis
    by (simp add: Cursor_configure_def tracked_body_def configure_path_def configure_body_def
        require_path_resolved Let_def split: option.splits)
next
  case WindsurfPlatform
  then show ?thesis
    by (simp add: Windsurf_configure_def tracked_body_def configure_path_def configure_body_def
        require_path_resolved split: option.splits)
next
  case WindsurfPlatform_old
  then show ?thesis
    by (simp add: Windsurf_old_configure_def legacy_body_def configure_path_def configure_body_def
        require_path_resolved split: option.splits)
next
  case VSCodePlatform
  then show ?thesis
    by (simp add: VSCode_configure_def legacy_body_def configure_path_def configure_body_def
        require_path_resolved Let_def split: option.splits)
next
  case ClinePlatform
  then show ?thesis
    by (simp add: Cline_configure_def legacy_body_def configure_path_def configure_body_def
        require_path_resolved split: option.splits)
qed

lemma configure_at:
  "configure_path a env sc = Some p \<Longrightarrow> configure a env k sc w = configure_body a env k p w"
  by (subst configure_unfold) simp

lemma configure_unresolved:
  "configure_path a env sc = None \<Longrightarrow> snd (configure a env k sc w) = w"
  by (subst configure_unfold) simp

subsection \<open>What configure does to the file system\<close>

lemma backup_path_neq [simp]: "backup_path env p \<noteq> p" "p \<noteq> backup_path env p"
  by (simp_all add: backup_path_def)

lemma andThen_cases:
  assumes "andThen m f w = (r, w')"
  obtains (fail) e where "m w = (Inl e, w')" "r = Inl e"
        | (ok) x w1 where "m w = (Inr x, w1)" "f x w1 = (r, w')"
  using assms by (auto simp: andThen_def split: prod.splits sum.splits)

lemma backupConfig_effect:
  assumes "backupConfig env p w = (r, w1)"
  shows "(w1 = w \<and> \<not> (files w p \<noteq> None \<and> copy_allowed env w p)) \<or>
         (\<exists>c. files w p = Some c \<and> copy_allowed env w p \<and>
              r = Inr (Some (backup_path env p)) \<and>
              w1 = w\<lparr>files := (files w)(backup_path env p \<mapsto> c), trace := trace w @ [Copy p (backup_path env p)]\<rparr>)"
  using assms
  by (auto simp: backupConfig_def existsSync_def copyFileSync_def andThen_def Let_def backup_path_def
      copy_allowed_def split: if_splits option.splits)

lemma writeConfig_effect:
  assumes "writeConfig env p cfg w = (r, w1)"
  shows "(\<exists>e. r = Inl e \<and>
            (w1 = w \<or> w1 = w\<lparr>dirs := insert (dirname env p) (dirs w), trace := trace w @ [Mkdir (dirname env p)]\<rparr>)) \<or>
         (r = Inr () \<and>
            (w1 = w\<lparr>files := (files w)(p \<mapsto> JSON_stringify cfg), trace := trace w @ [Write p (JSON_stringify cfg)]\<rparr> \<or>
             w1 = w\<lparr>dirs := insert (dirname env p) (dirs w), files := (files w)(p \<mapsto> JSON_stringify cfg),
                    trace := trace w @ [Mkdir (dirname env p), Write p (JSON_stringify cfg)]\<rparr>))"
  using assms
  by (auto simp: writeConfig_def rethrow_def andThen_def writeFileSync_def mkdirSync_def Let_def
      split: if_splits)

lemma readConfig_pure: "snd (readConfig p w) = w"
  by (simp add: readConfig_def split: sum.splits)

lemma readConfig_world:
  assumes "readConfig p w = (r, w1)"
  shows "w1 = w"
  using assms readConfig_pure [of p w] by simp

lemma readConfig_value:
  assumes "readConfig p w = (Inr v, w1)"
  shows "w1 = w \<and> read_value (files w p) = Inr v"
  using assms
  by (auto simp: readConfig_def existsSync_def readFileSync_def read_value_def
      split: if_splits option.splits sum.splits)

lemma effect_ok_refl: "effect_ok env p False C w w"
  by (simp add: effect_ok_def)

lemma effect_ok_wrote:
  assumes "effect_ok env p b C w w1" and "files w1 p = files w p" and "wrote env p C w1 w'"
  shows "effect_ok env p b C w w'"
proof -
  from assms(1) obtain ops where
    t: "trace w1 = trace w @ (if b then [Copy p (backup_path env p)] else []) @ ops"
    and nc: "\<forall>s d. Copy s d \<notin> set ops"
    and q: "\<forall>q. q \<noteq> p \<longrightarrow> q \<noteq> backup_path env p \<longrightarrow> files w1 q = files w q"
    and bb: "b \<longrightarrow> files w1 (backup_path env p) = files w p"
    unfolding effect_ok_def by blast
  from assms(3) consider
      (same) "w' = w1"
    | (mk) "w' = w1\<lparr>dirs := insert (dirname env p) (dirs w1), trace := trace w1 @ [Mkdir (dirname env p)]\<rparr>"
    | (wr) c where "C = Inr c"
        "w' = w1\<lparr>files := (files w1)(p \<mapsto> JSON_stringify c), trace := trace w1 @ [Write p (JSON_stringify c)]\<rparr>"
    | (mkwr) c where "C = Inr c"
        "w' = w1\<lparr>dirs := insert (dirname env p) (dirs w1), files := (files w1)(p \<mapsto> JSON_stringify c),
                 trace := trace w1 @ [Mkdir (dirname env p), Write p (JSON_stringify c)]\<rparr>"
    unfolding wrote_def by blast
  then show ?thesis
  proof cases
    case same
    then show ?thesis using assms(1) by simp
  next
    case mk
    have "\<exists>ops'. trace w' = trace w @ (if b then [Copy p (backup_path env p)] else []) @ ops' \<and> (\<forall>s d. Copy s d \<notin> set ops')"
      using t nc mk by (intro exI[of _ "ops @ [Mkdir (dirname env p)]"]) simp
    then show ?thesis using mk q bb assms(2) unfolding effect_ok_def by simp
  next
    case wr
    have "\<exists>ops'. trace w' = trace w @ (if b then [Copy p (backup_path env p)] else []) @ ops' \<and> (\<forall>s d. Copy s d \<notin> set ops')"
      using t nc wr by (intro exI[of _ "ops @ [Write p (JSON_stringify c)]"]) simp
    then show ?thesis using wr q bb assms(2) unfolding effect_ok_def by simp
  next
    case mkwr
    have "\<exists>ops'. trace w' = trace w @ (if b then [Copy p (backup_path env p)] else []) @ ops' \<and> (\<forall>s d. Copy s d \<notin> set ops')"
      using t nc mkwr by (intro exI[of _ "ops @ [Mkdir (dirname env p), Write p (JSON_stringify c)]"]) simp
    then show ?thesis using mkwr q bb assms(2) unfolding effect_ok_def by simp
  qed
qed

lemma effect_ok_backup:
  assumes "backupConfig env p w = (r, w1)"
  shows "effect_ok env p (files w p \<noteq> None \<and> copy_allowed env w p) C w w1 \<and> files w1 p = files w p"
  using backupConfig_effect [OF assms] by (auto simp: effect_ok_def)

lemma write_tail:
  assumes "andThen (liftE (assign_servers c1 (getMcpServerConfig k)))
             (\<lambda>config. andThen (writeConfig env p config) (f config)) w1 = (r, w')"
    and "\<And>config x wa. \<exists>y. f config x wa = (y, wa)"
    and "ensure_mcpServers c0 = Inr c1"
  shows "wrote env p (upsert k c0) w1 w'"
proof (cases "assign_servers c1 (getMcpServerConfig k)")
  case (Inl e)
  with assms(1) show ?thesis by (simp add: wrote_def)
next
  case (Inr c2)
  have u: "upsert k c0 = Inr c2" by (simp add: upsert_def assms(3) Inr)
  from assms(1) Inr have "andThen (writeConfig env p c2) (f c2) w1 = (r, w')" by simp
  then show ?thesis
  proof (cases rule: andThen_cases)
    case (fail e)
    then show ?thesis using writeConfig_effect [OF fail(1)] by (auto simp: wrote_def)
  next
    case (ok x wa)
    from assms(2) [of c2 x wa] ok(2) have "w' = wa" by auto
    then show ?thesis using writeConfig_effect [OF ok(1)] u by (auto simp: wrote_def)
  qed
qed

lemma legacy_body_effect:
  assumes "legacy_body env k p w = (r, w')"
  shows "effect_ok env p (files w p \<noteq> None \<and> copy_allowed env w p)
           (thenE (read_value (files w p)) (\<lambda>v. upsert k (js_or v (VObj [])))) w w'"
    (is "effect_ok env p ?b ?C w w'")
  using assms unfolding legacy_body_def
proof (cases rule: andThen_cases)
  case (fail e)
  then show ?thesis using effect_ok_backup [OF fail(1)] by simp
next
  case (ok bp w1)
  note base = effect_ok_backup [OF ok(1), of ?C]
  from ok(2) show ?thesis
  proof (cases rule: andThen_cases)
    case (fail e)
    then show ?thesis using base readConfig_world [OF fail(1)] by simp
  next
    case (ok v w2)
    note rd = readConfig_value [OF ok(1)]
    have wc: "?C = upsert k (js_or v (VObj []))"
      using rd base by simp
    show ?thesis
    proof (cases "ensure_mcpServers (js_or v (VObj []))")
      case (Inl e)
      with ok(2) rd base show ?thesis by simp
    next
      case (Inr c1)
      with ok(2) rd have "andThen (liftE (assign_servers c1 (getMcpServerConfig k)))
             (\<lambda>config. andThen (writeConfig env p config) (\<lambda>_. ret Ret_true)) w1 = (r, w')"
        by simp
      from write_tail [OF this _ Inr] have "wrote env p (upsert k (js_or v (VObj []))) w1 w'"
        by simp
      then have "wrote env p ?C w1 w'" using wc by simp
      with base show ?thesis using effect_ok_wrote by blast
    qed
  qed
qed

lemma not_configured_None [simp]: "\<not> configured None"
  by (simp add: configured_def read_value_def js_or_def ensure_mcpServers_def js_set_def
      spectator_entry_def)

lemma configured_file: "configured c \<Longrightarrow> c \<noteq> None"
  by (cases c) auto

lemma tracked_body_effect:
  assumes "tracked_body env k p w = (r, w')"
  shows "effect_ok env p (configured (files w p) \<and> copy_allowed env w p)
           (thenE (read_value (files w p)) (\<lambda>v. upsert k (js_or v (VObj [])))) w w'"
    (is "effect_ok env p ?b ?C w w'")
  using assms unfolding tracked_body_def
proof (cases rule: andThen_cases)
  case (fail e)
  then have "w' = w" using readConfig_world by simp
  moreover have "\<not> configured (files w p)"
  proof (cases "files w p")
    case None
    then show ?thesis by simp
  next
    case (Some c)
    with fail(1) show ?thesis
      by (auto simp: readConfig_def configured_def read_value_def existsSync_def readFileSync_def
          split: if_splits sum.splits)
  qed
  ultimately show ?thesis by (simp add: effect_ok_refl)
next
  case (ok v w1)
  note rd = readConfig_value [OF ok(1)]
  have wc: "?C = upsert k (js_or v (VObj []))" using rd by simp
  show ?thesis
  proof (cases "ensure_mcpServers (js_or v (VObj []))")
    case (Inl e)
    with ok(2) rd show ?thesis by (simp add: configured_def effect_ok_refl)
  next
    case c1: (Inr c1)
    show ?thesis
    proof (cases "spectator_entry c1")
      case (Inl e)
      with ok(2) rd c1 show ?thesis by (simp add: configured_def effect_ok_refl)
    next
      case (Inr entry)
      have cf: "configured (files w p) = truthy entry"
        using rd c1 Inr by (simp add: configured_def)
      from ok(2) rd c1 Inr have step:
        "andThen (if truthy entry then andThen (backupConfig env p) (\<lambda>backupPath. ret ()) else ret ())
           (\<lambda>_. andThen (liftE (assign_servers c1 (getMcpServerConfig k)))
              (\<lambda>config. andThen (writeConfig env p config)
                 (\<lambda>_. andThen (liftE (hasOtherServers_after config))
                    (\<lambda>h. ret (Ret_record entry h None))))) w = (r, w')"
        by simp
      have tailf: "\<And>config x wa. \<exists>y. andThen (liftE (hasOtherServers_after config))
                    (\<lambda>h. ret (Ret_record entry h None)) wa = (y, wa)"
        by (simp split: sum.splits)
      show ?thesis
      proof (cases "truthy entry")
        case False
        with step have "andThen (liftE (assign_servers c1 (getMcpServerConfig k)))
              (\<lambda>config. andThen (writeConfig env p config)
                 (\<lambda>_. andThen (liftE (hasOtherServers_after config))
                    (\<lambda>h. ret (Ret_record entry h None)))) w = (r, w')"
          by simp
        from write_tail [OF this tailf c1] have "wrote env p ?C w w'" using wc by simp
        from effect_ok_wrote [OF effect_ok_refl refl this] show ?thesis using cf False by simp
      next
        case True
        then have ex: "files w p \<noteq> None" using cf configured_file by blast
        from step True show ?thesis
        proof (cases rule: andThen_cases)
          case (fail e)
          with True obtain w0 where "backupConfig env p w = (Inl e, w0)" "w0 = w'"
            by (auto simp: andThen_def split: prod.splits sum.splits)
          from effect_ok_backup [OF this(1), of ?C] this(2) show ?thesis using cf True ex by simp
        next
          case (ok u w2)
          with True obtain bp where bk: "backupConfig env p w = (Inr bp, w2)"
            by (auto simp: andThen_def split: prod.splits sum.splits)
          note base = effect_ok_backup [OF bk, of ?C]
          from write_tail [OF ok(2) tailf c1] have "wrote env p ?C w2 w'" using wc by simp
          from effect_ok_wrote [OF conjunct1 [OF base] conjunct2 [OF base] this]
          show ?thesis using cf True ex by simp
        qed
      qed
    qed
  qed
qed

lemma claudecode_body_effect:
  assumes "claudecode_body env k p w = (r, w')"
  shows "effect_ok env p False
           (thenE (claudecode_read_value (files w p)) (\<lambda>v.
            thenE (ensure_mcpServers v) (\<lambda>c. set_spectator_entry c (canonical_entry k)))) w w'"
    (is "effect_ok env p False ?C w w'")
proof -
  let ?d = "dirname env p"
  have "wrote env p ?C w w'"
    using assms unfolding claudecode_body_def Let_def
  proof (cases rule: andThen_cases)
    case (fail e)
    then show ?thesis by (auto simp: wrote_def mkdirSync_def split: if_splits)
  next
    case (ok u w0)
    then have w0: "w0 = w \<or> w0 = w\<lparr>dirs := insert ?d (dirs w), trace := trace w @ [Mkdir ?d]\<rparr>"
      by (auto simp: mkdirSync_def split: if_splits)
    then have f0: "files w0 = files w" by auto
    from ok(2) show ?thesis
    proof (cases rule: andThen_cases)
      case (fail e)
      then have "w' = w0" by (auto split: if_splits)
      with w0 show ?thesis by (auto simp: wrote_def)
    next
      case (ok v w1)
      then have w1: "w1 = w0" and rv: "claudecode_read_value (files w p) = Inr v"
        using f0
        by (auto simp: claudecode_read_value_def existsSync_def readFileSync_def
            split: if_splits option.splits)
      show ?thesis
      proof (cases "ensure_mcpServers v")
        case (Inl e)
        with ok(2) w0 w1 show ?thesis by (auto simp: wrote_def)
      next
        case c1: (Inr c1)
        show ?thesis
        proof (cases "hasOtherServers_before c1")
          case (Inl e)
          with ok(2) w0 w1 c1 show ?thesis by (auto simp: wrote_def)
        next
          case h: (Inr h)
          show ?thesis
          proof (cases "spectator_entry c1")
            case (Inl e)
            with ok(2) w0 w1 c1 h show ?thesis by (auto simp: wrote_def)
          next
            case en: (Inr entry)
            show ?thesis
            proof (cases "set_spectator_entry c1 (canonical_entry k)")
              case (Inl e)
              with ok(2) w0 w1 c1 h en show ?thesis by (auto simp: wrote_def)
            next
              case c2: (Inr c2)
              have C: "?C = Inr c2" using rv c1 c2 by simp
              from ok(2) c1 h en c2 have
                "andThen (writeFileSync env p (JSON_stringify c2))
                   (\<lambda>_. ret (Ret_record (Some (VBool (truthy entry))) h (Some p))) w1 = (r, w')"
                by simp
              then have "w' = w1 \<or> w' = w1\<lparr>files := (files w1)(p \<mapsto> JSON_stringify c2),
                                          trace := trace w1 @ [Write p (JSON_stringify c2)]\<rparr>"
                by (auto simp: andThen_def writeFileSync_def split: if_splits)
              with w0 w1 C show ?thesis by (auto simp: wrote_def)
            qed
          qed
        qed
      qed
    qed
  qed
  from effect_ok_wrote [OF effect_ok_refl refl this] show ?thesis .
qed

lemma configure_body_effect:
  assumes "configure_body a env k p w = (r, w')"
  shows "effect_ok env p (backup_due a w p \<and> copy_allowed env w p) (written_config a k (files w p)) w w'"
  using assms legacy_body_effect [of env k p w r w'] tracked_body_effect [of env k p w r w']
    claudecode_body_effect [of env k p w r w']
  by (cases a) (simp_all add: configure_body_def backup_due_def written_config_def)

subsection \<open>The configuration object after the insert\<close>

lemma to_json_of_json [simp]: "to_json (of_json j) = j"
  by (induction j) (auto simp: list.map_comp comp_def prod.map_comp intro!: map_idI)

lemma fields_roundtrip_comp [simp]:
  "map (map_prod id to_json \<circ> map_prod id of_json) flds = flds"
  by (induction flds) auto

lemma fields_roundtrip [simp]:
  "map (map_prod id to_json) (map (map_prod id of_json) flds) = flds"
  by simp

lemma map_of_mapped: "map_of (map (map_prod id f) al) k = map_option f (map_of al k)"
  by (induction al) auto

lemma map_fields_delete:
  "map (map_prod id f) (AList.delete k al) = AList.delete k (map (map_prod id f) al)"
  by (induction al) auto

lemma map_fields_update:
  "map (map_prod id f) (AList.update k v al) = AList.update k (f v) (map (map_prod id f) al)"
  by (induction al) auto

lemma truthy_servers_or_empty [simp]: "truthy (Some (servers_or_empty fs))"
  by (simp add: servers_or_empty_def split: option.splits)

lemma servers_or_empty_not_null [simp]: "servers_or_empty fs \<noteq> VNull"
  using truthy_servers_or_empty [of fs] by (auto simp del: truthy_servers_or_empty)

lemma ensure_obj:
  "ensure_mcpServers (VObj fs) =
     Inr (VObj (if truthy (map_of fs ''mcpServers'') then fs else AList.update ''mcpServers'' (VObj []) fs))"
  by (simp add: ensure_mcpServers_def js_set_def)

lemma ensure_obj_servers:
  "\<exists>fs1. ensure_mcpServers (VObj fs) = Inr (VObj fs1) \<and>
     map_of fs1 ''mcpServers'' = Some (servers_or_empty fs) \<and>
     (\<forall>x. AList.update ''mcpServers'' x fs1 = AList.update ''mcpServers'' x fs)"
  by (auto simp: ensure_obj servers_or_empty_def update_conv' split: option.splits)

lemma assign_obj:
  "map_of fs ''mcpServers'' = Some t \<Longrightarrow> t \<noteq> VNull \<Longrightarrow>
   assign_servers (VObj fs) (getMcpServerConfig k) =
     Inr (VObj (AList.update ''mcpServers'' (with_prop t ''spectator-voice-memory'' (canonical_entry k)) fs))"
  by (cases t) (simp_all add: assign_servers_def getMcpServerConfig_def)

lemma set_entry_obj:
  "map_of fs ''mcpServers'' = Some t \<Longrightarrow> set_spectator_entry (VObj fs) e = Inr c \<Longrightarrow>
   c = VObj (AList.update ''mcpServers'' (with_prop t ''spectator-voice-memory'' e) fs)"
  by (cases t) (auto simp: set_spectator_entry_def js_set_def split: if_splits)

lemma upsert_obj_eq: "upsert k (VObj fs) = Inr (VObj (upsert_obj k fs))"
proof -
  obtain fs1 where e: "ensure_mcpServers (VObj fs) = Inr (VObj fs1)"
    and m: "map_of fs1 ''mcpServers'' = Some (servers_or_empty fs)"
    and u: "\<And>x. AList.update ''mcpServers'' x fs1 = AList.update ''mcpServers'' x fs"
    using ensure_obj_servers by blast
  show ?thesis
    by (simp add: upsert_def e assign_obj [OF m] u upsert_obj_def)
qed

lemma claudecode_upsert_obj:
  assumes "thenE (ensure_mcpServers (VObj fs)) (\<lambda>c. set_spectator_entry c (canonical_entry k)) = Inr c2"
  shows "c2 = VObj (upsert_obj k fs)"
proof -
  obtain fs1 where e: "ensure_mcpServers (VObj fs) = Inr (VObj fs1)"
    and m: "map_of fs1 ''mcpServers'' = Some (servers_or_empty fs)"
    and u: "\<And>x. AList.update ''mcpServers'' x fs1 = AList.update ''mcpServers'' x fs"
    using ensure_obj_servers by blast
  from assms e have "set_spectator_entry (VObj fs1) (canonical_entry k) = Inr c2" by simp
  from set_entry_obj [OF m this] show ?thesis by (simp add: u upsert_obj_def)
qed

lemma written_config_doc:
  assumes "written_config a k (Some (Json (JObj flds))) = Inr c"
  shows "c = VObj (upsert_obj k (map (map_prod id of_json) flds))"
proof (cases "a = ClaudeCode")
  case True
  with assms show ?thesis
    by (simp add: written_config_def claudecode_read_value_def claudecode_upsert_obj)
next
  case False
  with assms show ?thesis
    by (cases a) (simp_all add: written_config_def read_value_def js_or_def upsert_obj_eq)
qed

lemma of_json_obj: "of_json j = VObj ss \<Longrightarrow> \<exists>s. j = JObj s \<and> ss = map (map_prod id of_json) s"
  by (cases j) auto

lemma servers_of_update [simp]:
  "servers_of (AList.update ''mcpServers'' x flds) = (case x of JObj s \<Rightarrow> s | _ \<Rightarrow> [])"
  by (simp add: servers_of_def update_conv')

lemma doc_frame:
  "\<exists>flds'. to_json (VObj (upsert_obj k (map (map_prod id of_json) flds))) = JObj flds' \<and>
     AList.delete ''mcpServers'' flds' = AList.delete ''mcpServers'' flds \<and>
     AList.delete ''spectator-voice-memory'' (servers_of flds') =
       AList.delete ''spectator-voice-memory'' (servers_of flds)"
proof -
  let ?fs = "map (map_prod id of_json) flds"
  let ?t = "servers_or_empty ?fs"
  let ?x = "to_json (with_prop ?t ''spectator-voice-memory'' (canonical_entry k))"
  have 1: "to_json (VObj (upsert_obj k ?fs)) = JObj (AList.update ''mcpServers'' ?x flds)"
    by (simp add: upsert_obj_def map_fields_update)
  have 2: "AList.delete ''mcpServers'' (AList.update ''mcpServers'' ?x flds) = AList.delete ''mcpServers'' flds"
    by (simp add: delete_update_same)
  have 3: "AList.delete ''spectator-voice-memory'' (case ?x of JObj s \<Rightarrow> s | _ \<Rightarrow> []) =
           AList.delete ''spectator-voice-memory'' (servers_of flds)"
  proof (cases "map_of flds ''mcpServers''")
    case None
    then show ?thesis
      by (simp add: servers_or_empty_def servers_of_def map_of_mapped)
  next
    case (Some j)
    then show ?thesis
      by (cases j)
         (simp_all add: servers_or_empty_def servers_of_def map_of_mapped map_fields_update
            delete_update_same)
  qed
  show ?thesis using 1 2 3 by simp
qed

lemma configured_doc:
  "configured (Some (Json (JObj flds))) =
     (case map_of flds ''mcpServers'' of
        Some (JObj s) \<Rightarrow> truthy (map_option of_json (map_of s ''spectator-voice-memory''))
      | _ \<Rightarrow> False)"
proof (cases "map_of flds ''mcpServers''")
  case None
  then show ?thesis
    by (simp add: configured_def read_value_def js_or_def ensure_obj map_of_mapped
        spectator_entry_def update_conv')
next
  case (Some j)
  then show ?thesis
    by (cases j)
       (simp_all add: configured_def read_value_def js_or_def ensure_obj map_of_mapped
          spectator_entry_def update_conv')
qed

subsection \<open>Successful runs of configure\<close>

lemma to_json_canonical [simp]: "to_json (canonical_entry k) = canonical_json k"
  by (simp add: canonical_entry_def canonical_json_def)

lemma truthy_canonical [simp]: "truthy (Some (canonical_entry k))"
  by (simp add: canonical_entry_def)

lemma servers_or_empty_doc:
  "registry_doc flds \<Longrightarrow>
   servers_or_empty (map (map_prod id of_json) flds) = VObj (map (map_prod id of_json) (servers_of flds))"
proof (cases "map_of flds ''mcpServers''")
  case None
  then show ?thesis by (simp add: servers_or_empty_def servers_of_def map_of_mapped)
next
  case (Some j)
  assume "registry_doc flds"
  with Some show ?thesis
    by (cases j) (simp_all add: registry_doc_def servers_or_empty_def servers_of_def map_of_mapped)
qed

lemma upsert_obj_doc:
  "registry_doc flds \<Longrightarrow>
   map (map_prod id to_json) (upsert_obj k (map (map_prod id of_json) flds)) = put_entry k flds"
  by (simp add: upsert_obj_def servers_or_empty_doc map_fields_update put_entry_def)

lemma backupConfig_absent: "\<not> existsSync w p \<Longrightarrow> backupConfig env p w = (Inr None, w)"
  by (simp add: backupConfig_def)

lemma backupConfig_copy:
  "files w p = Some c \<Longrightarrow> copy_allowed env w p \<Longrightarrow>
   backupConfig env p w =
     (Inr (Some (backup_path env p)),
      w\<lparr>files := (files w)(backup_path env p \<mapsto> c), trace := trace w @ [Copy p (backup_path env p)]\<rparr>)"
  by (simp add: backupConfig_def existsSync_def copyFileSync_def andThen_def copy_allowed_def
      backup_path_def Let_def)

lemma writeConfig_plain:
  "p \<notin> locked w \<Longrightarrow> p \<notin> dirs w \<Longrightarrow> dirname env p \<in> dirs w \<Longrightarrow>
   writeConfig env p c w =
     (Inr (), w\<lparr>files := (files w)(p \<mapsto> JSON_stringify c), trace := trace w @ [Write p (JSON_stringify c)]\<rparr>)"
  by (simp add: writeConfig_def rethrow_def andThen_def existsSync_def writeFileSync_def Let_def)

lemma writeConfig_mkdir:
  "p \<notin> locked w \<Longrightarrow> p \<notin> dirs w \<Longrightarrow> dirname env p \<noteq> p \<Longrightarrow>
   \<not> existsSync w (dirname env p) \<Longrightarrow> dirname env p \<notin> locked w \<Longrightarrow>
   writeConfig env p c w =
     (Inr (), w\<lparr>dirs := insert (dirname env p) (dirs w), files := (files w)(p \<mapsto> JSON_stringify c),
               trace := trace w @ [Mkdir (dirname env p), Write p (JSON_stringify c)]\<rparr>)"
  by (simp add: writeConfig_def rethrow_def andThen_def existsSync_def writeFileSync_def mkdirSync_def Let_def)

lemma readConfig_json: "files w p = Some (Json j) \<Longrightarrow> readConfig p w = (Inr (of_json j), w)"
  by (simp add: readConfig_def existsSync_def readFileSync_def)

lemma readConfig_absent: "\<not> existsSync w p \<Longrightarrow> readConfig p w = (Inr VNull, w)"
  by (simp add: readConfig_def)

lemma js_or_obj [simp]: "js_or (VObj fs) d = VObj fs"
  by (simp add: js_or_def)

lemma js_or_null [simp]: "js_or VNull d = d"
  by (simp add: js_or_def)

lemma ensure_then_assign:
  "ensure_mcpServers (VObj fs) = Inr c1 \<Longrightarrow>
   assign_servers c1 (getMcpServerConfig k) = Inr (VObj (upsert_obj k fs))"
  using upsert_obj_eq [of k fs] by (simp add: upsert_def)

lemma ensure_obj_total: "\<exists>fs1. ensure_mcpServers (VObj fs) = Inr (VObj fs1) \<and>
     map_of fs1 ''mcpServers'' = Some (servers_or_empty fs)"
  using ensure_obj_servers by blast

lemma of_json_canonical [simp]: "of_json (canonical_json k) = canonical_entry k"
  by (simp add: canonical_entry_def canonical_json_def)

lemma world_dirs_same [simp]: "w\<lparr>dirs := dirs w\<rparr> = w"
  by simp

lemma entry_after_ensure:
  assumes "registry_doc flds"
    and "ensure_mcpServers (VObj (map (map_prod id of_json) flds)) = Inr c1"
  shows "spectator_entry c1 = Inr (entry_of flds)"
proof -
  obtain fs1 where e: "ensure_mcpServers (VObj (map (map_prod id of_json) flds)) = Inr (VObj fs1)"
    and m: "map_of fs1 ''mcpServers'' = Some (servers_or_empty (map (map_prod id of_json) flds))"
    using ensure_obj_total by blast
  from assms(2) e have c1: "c1 = VObj fs1" by simp
  show ?thesis unfolding c1
    by (simp add: spectator_entry_def m servers_or_empty_doc [OF assms(1)] map_of_mapped entry_of_def)
qed

lemma keys_after_upsert:
  assumes "registry_doc flds"
  shows "hasOtherServers_after (VObj (upsert_obj k (map (map_prod id of_json) flds))) =
           Inr (length (AList.update ''spectator-voice-memory'' (canonical_json k) (servers_of flds)) > 1)"
proof -
  have "length (AList.update ''spectator-voice-memory'' (canonical_entry k)
                  (map (map_prod id of_json) (servers_of flds))) =
        length (AList.update ''spectator-voice-memory'' (canonical_json k) (servers_of flds))"
    using map_fields_update [of of_json "''spectator-voice-memory''" "canonical_json k" "servers_of flds"]
    by (metis length_map of_json_canonical)
  then show ?thesis
    by (simp add: hasOtherServers_after_def upsert_obj_def update_conv' servers_or_empty_doc [OF assms])
qed

lemma keys_before_insert:
  assumes "registry_doc flds"
    and "ensure_mcpServers (VObj (map (map_prod id of_json) flds)) = Inr c1"
  shows "hasOtherServers_before c1 =
           Inr (length (filter (\<lambda>k. k \<noteq> ''spectator-voice-memory'') (map fst (servers_of flds))) > 0)"
proof -
  obtain fs1 where e: "ensure_mcpServers (VObj (map (map_prod id of_json) flds)) = Inr (VObj fs1)"
    and m: "map_of fs1 ''mcpServers'' = Some (servers_or_empty (map (map_prod id of_json) flds))"
    using ensure_obj_total by blast
  from assms(2) e have c1: "c1 = VObj fs1" by simp
  have "map fst (map (map_prod id of_json) (servers_of flds)) = map fst (servers_of flds)"
    by (induction "servers_of flds") auto
  then show ?thesis unfolding c1
    by (simp add: hasOtherServers_before_def m servers_or_empty_doc [OF assms(1)] filter_map)
qed

lemma set_entry_after_ensure:
  assumes "registry_doc flds"
    and "ensure_mcpServers (VObj (map (map_prod id of_json) flds)) = Inr c1"
  shows "set_spectator_entry c1 (canonical_entry k) =
           Inr (VObj (upsert_obj k (map (map_prod id of_json) flds)))"
proof -
  let ?fs = "map (map_prod id of_json) flds"
  obtain fs1 where e: "ensure_mcpServers (VObj ?fs) = Inr (VObj fs1)"
    and m: "map_of fs1 ''mcpServers'' = Some (servers_or_empty ?fs)"
    and u: "\<And>x. AList.update ''mcpServers'' x fs1 = AList.update ''mcpServers'' x ?fs"
    using ensure_obj_servers by blast
  from assms(2) e have c1: "c1 = VObj fs1" by simp
  show ?thesis unfolding c1
    by (simp add: set_spectator_entry_def m servers_or_empty_doc [OF assms(1)] js_set_def
        upsert_obj_def u)
qed

lemma configured_registry_doc:
  "registry_doc flds \<Longrightarrow> configured (Some (Json (JObj flds))) = truthy (entry_of flds)"
  by (auto simp: configured_doc entry_of_def servers_of_def registry_doc_def
      split: option.splits json.splits)

lemma legacy_body_doc:
  assumes "files w p = Some (Json (JObj flds))" and "registry_doc flds" and "ready env w p"
  shows "legacy_body env k p w =
     (Inr Ret_true,
      w\<lparr>files := (files w)(backup_path env p \<mapsto> Json (JObj flds), p \<mapsto> Json (JObj (put_entry k flds))),
        trace := trace w @ [Copy p (backup_path env p), Write p (Json (JObj (put_entry k flds)))]\<rparr>)"
proof -
  obtain fs1 where e: "ensure_mcpServers (VObj (map (map_prod id of_json) flds)) = Inr (VObj fs1)"
    using ensure_obj_total by blast
  note a = ensure_then_assign [OF e]
  from assms(3) have r: "p \<notin> locked w" "p \<notin> dirs w" "dirname env p \<in> dirs w" "copy_allowed env w p"
    by (simp_all add: ready_def)
  show ?thesis
    unfolding legacy_body_def
    by (simp add: andThen_def backupConfig_copy [OF assms(1) r(4)] readConfig_json assms(1) e a
        writeConfig_plain r JSON_stringify_def upsert_obj_doc [OF assms(2)])
qed

lemma tracked_body_doc:
  assumes "files w p = Some (Json (JObj flds))" and "registry_doc flds" and "ready env w p"
  shows "tracked_body env k p w =
     (Inr (Ret_record (entry_of flds)
             (length (AList.update ''spectator-voice-memory'' (canonical_json k) (servers_of flds)) > 1) None),
      w\<lparr>files := (if truthy (entry_of flds) then (files w)(backup_path env p \<mapsto> Json (JObj flds)) else files w)
                   (p \<mapsto> Json (JObj (put_entry k flds))),
        trace := trace w @ (if truthy (entry_of flds) then [Copy p (backup_path env p)] else []) @
                 [Write p (Json (JObj (put_entry k flds)))]\<rparr>)"
proof -
  obtain fs1 where e: "ensure_mcpServers (VObj (map (map_prod id of_json) flds)) = Inr (VObj fs1)"
    using ensure_obj_total by blast
  note a = ensure_then_assign [OF e]
  note en = entry_after_ensure [OF assms(2) e]
  from assms(3) have r: "p \<notin> locked w" "p \<notin> dirs w" "dirname env p \<in> dirs w" "copy_allowed env w p"
    by (simp_all add: ready_def)
  show ?thesis
    unfolding tracked_body_def
    by (simp add: andThen_def backupConfig_copy [OF assms(1) r(4)] readConfig_json assms(1) e a en
        writeConfig_plain r JSON_stringify_def upsert_obj_doc [OF assms(2)]
        keys_after_upsert [OF assms(2)])
qed

lemma claudecode_body_doc:
  assumes "files w p = Some (Json (JObj flds))" and "registry_doc flds" and "ready env w p"
  shows "claudecode_body env k p w =
     (Inr (Ret_record (Some (VBool (truthy (entry_of flds))))
             (length (filter (\<lambda>k. k \<noteq> ''spectator-voice-memory'') (map fst (servers_of flds))) > 0)
             (Some p)),
      w\<lparr>files := (files w)(p \<mapsto> Json (JObj (put_entry k flds))),
        trace := trace w @ [Write p (Json (JObj (put_entry k flds)))]\<rparr>)"
proof -
  obtain fs1 where e: "ensure_mcpServers (VObj (map (map_prod id of_json) flds)) = Inr (VObj fs1)"
    using ensure_obj_total by blast
  note en = entry_after_ensure [OF assms(2) e]
  note kb = keys_before_insert [OF assms(2) e]
  note se = set_entry_after_ensure [OF assms(2) e]
  from assms(3) have r: "p \<notin> locked w" "p \<notin> dirs w" "dirname env p \<in> dirs w" "copy_allowed env w p"
    by (simp_all add: ready_def)
  show ?thesis
    unfolding claudecode_body_def
    by (simp add: andThen_def existsSync_def readFileSync_def assms(1) e en kb se r
        writeFileSync_def JSON_stringify_def upsert_obj_doc [OF assms(2)] Let_def)
qed

lemma configure_body_doc:
  assumes "files w p = Some (Json (JObj flds))" and "registry_doc flds" and "ready env w p"
  shows "configure_body a env k p w = (Inr (expected_result a k p flds), after_configure a env k p flds w)"
proof -
  from assms(3) have d: "dirname env p \<in> dirs w" by (simp add: ready_def)
  then have i: "insert (dirname env p) (dirs w) = dirs w" by auto
  show ?thesis
    by (cases a)
       (simp_all add: configure_body_def expected_result_def after_configure_def backup_due_def
          legacy_body_doc [OF assms] tracked_body_doc [OF assms] claudecode_body_doc [OF assms]
          configured_registry_doc [OF assms(2)] assms(1) d i)
qed


lemma registry_doc_Nil [simp]: "registry_doc []"
  by (simp add: registry_doc_def)

lemma fresh_backup_due: "\<not> existsSync w p \<Longrightarrow> \<not> backup_due a w p"
  by (cases a) (simp_all add: backup_due_def existsSync_def)

lemma legacy_body_fresh:
  assumes "fresh env w p"
  shows "legacy_body env k p w = (Inr Ret_true, after_configure ClinePlatform env k p [] w)"
proof -
  obtain fs1 where e: "ensure_mcpServers (VObj []) = Inr (VObj fs1)"
    using ensure_obj_total by blast
  note a = ensure_then_assign [OF e]
  from assms have r: "\<not> existsSync w p" "p \<notin> locked w" "p \<notin> dirs w" "dirname env p \<noteq> p"
    by (simp_all add: fresh_def existsSync_def)
  note nb = fresh_backup_due [OF r(1), of ClinePlatform]
  show ?thesis
  proof (cases "dirname env p \<in> dirs w")
    case True
    then have i: "insert (dirname env p) (dirs w) = dirs w" by auto
    show ?thesis
      unfolding legacy_body_def
      by (simp add: andThen_def backupConfig_absent readConfig_absent r e a True i nb
          writeConfig_plain JSON_stringify_def upsert_obj_doc [of "[]", simplified] after_configure_def)
  next
    case False
    with assms have m: "\<not> existsSync w (dirname env p)" "dirname env p \<notin> locked w"
      by (simp_all add: fresh_def)
    show ?thesis
      unfolding legacy_body_def
      by (simp add: andThen_def backupConfig_absent readConfig_absent r e a False nb m
          writeConfig_mkdir JSON_stringify_def upsert_obj_doc [of "[]", simplified] after_configure_def)
  qed
qed

lemma servers_of_Nil [simp]: "servers_of [] = []"
  by (simp add: servers_of_def)

lemma entry_of_Nil [simp]: "entry_of [] = None"
  by (simp add: entry_of_def)

lemma tracked_body_fresh:
  assumes "fresh env w p"
  shows "tracked_body env k p w = (Inr (Ret_record None False None), after_configure CursorPlatform env k p [] w)"
proof -
  obtain fs1 where e: "ensure_mcpServers (VObj []) = Inr (VObj fs1)"
    using ensure_obj_total by blast
  note a = ensure_then_assign [OF e]
  have en: "spectator_entry (VObj fs1) = Inr None"
    using entry_after_ensure [of "[]" "VObj fs1"] e by simp
  have ks: "hasOtherServers_after (VObj (upsert_obj k [])) = Inr False"
    using keys_after_upsert [of "[]" k] by simp
  from assms have r: "\<not> existsSync w p" "p \<notin> locked w" "p \<notin> dirs w" "dirname env p \<noteq> p"
    by (simp_all add: fresh_def existsSync_def)
  note nb = fresh_backup_due [OF r(1), of CursorPlatform]
  show ?thesis
  proof (cases "dirname env p \<in> dirs w")
    case True
    then have i: "insert (dirname env p) (dirs w) = dirs w" by auto
    show ?thesis
      unfolding tracked_body_def
      by (simp add: andThen_def readConfig_absent r e a en ks True i nb
          writeConfig_plain JSON_stringify_def upsert_obj_doc [of "[]", simplified] after_configure_def)
  next
    case False
    with assms have m: "\<not> existsSync w (dirname env p)" "dirname env p \<notin> locked w"
      by (simp_all add: fresh_def)
    show ?thesis
      unfolding tracked_body_def
      by (simp add: andThen_def readConfig_absent r e a en ks False nb m
          writeConfig_mkdir JSON_stringify_def upsert_obj_doc [of "[]", simplified] after_configure_def)
  qed
qed

lemma claudecode_body_fresh:
  assumes "fresh env w p"
  shows "claudecode_body env k p w =
           (Inr (Ret_record (Some (VBool False)) False (Some p)), after_configure ClaudeCode env k p [] w)"
proof -
  obtain fs1 where e: "ensure_mcpServers (VObj []) = Inr (VObj fs1)"
    using ensure_obj_total by blast
  have en: "spectator_entry (VObj fs1) = Inr None"
    using entry_after_ensure [of "[]" "VObj fs1"] e by simp
  have kb: "hasOtherServers_before (VObj fs1) = Inr False"
    using keys_before_insert [of "[]" "VObj fs1"] e by simp
  have se: "set_spectator_entry (VObj fs1) (canonical_entry k) = Inr (VObj (upsert_obj k []))"
    using set_entry_after_ensure [of "[]" "VObj fs1" k] e by simp
  from assms have r: "files w p = None" "p \<notin> locked w" "p \<notin> dirs w" "dirname env p \<noteq> p"
    by (simp_all add: fresh_def existsSync_def)
  have nb: "\<not> backup_due ClaudeCode w p" by (simp add: backup_due_def)
  show ?thesis
  proof (cases "dirname env p \<in> dirs w")
    case True
    then have i: "insert (dirname env p) (dirs w) = dirs w" by auto
    show ?thesis
      unfolding claudecode_body_def
      by (simp add: andThen_def existsSync_def r e en kb se True i nb Let_def
          writeFileSync_def JSON_stringify_def upsert_obj_doc [of "[]", simplified] after_configure_def)
  next
    case False
    with assms have m: "files w (dirname env p) = None" "dirname env p \<notin> locked w"
      by (simp_all add: fresh_def existsSync_def)
    from r(4) have r4: "p \<noteq> dirname env p" by auto
    show ?thesis
      unfolding claudecode_body_def
      by (simp add: andThen_def existsSync_def r r4 e en kb se False nb m Let_def mkdirSync_def
          writeFileSync_def JSON_stringify_def upsert_obj_doc [of "[]", simplified] after_configure_def)
  qed
qed

lemma after_configure_fresh:
  "\<not> existsSync w p \<Longrightarrow> after_configure a env k p flds w = after_configure ClaudeCode env k p flds w"
  by (simp add: after_configure_def fresh_backup_due)

lemma configure_body_fresh:
  assumes "fresh env w p"
  shows "configure_body a env k p w = (Inr (expected_result a k p []), after_configure a env k p [] w)"
proof -
  from assms have n: "\<not> existsSync w p" by (simp add: fresh_def)
  show ?thesis
    by (cases a)
       (simp_all add: configure_body_def expected_result_def
          legacy_body_fresh [OF assms] tracked_body_fresh [OF assms] claudecode_body_fresh [OF assms]
          after_configure_fresh [OF n, of ClinePlatform] after_configure_fresh [OF n, of CursorPlatform]
          after_configure_fresh [OF n, of ClaudePlatform] after_configure_fresh [OF n, of WindsurfPlatform]
          after_configure_fresh [OF n, of WindsurfPlatform_old] after_configure_fresh [OF n, of VSCodePlatform])
qed

subsection \<open>What remove does to the file system\<close>

lemma has_entry_doc: "has_entry (of_json (JObj flds)) = Inr (truthy (entry_of flds))"
proof (cases "map_of flds ''mcpServers''")
  case None
  then show ?thesis by (simp add: has_entry_def map_of_mapped entry_of_def servers_of_def)
next
  case (Some j)
  then show ?thesis
    by (cases j) (simp_all add: has_entry_def map_of_mapped entry_of_def servers_of_def)
qed

lemma entry_servers:
  "truthy (entry_of flds) \<Longrightarrow> map_of flds ''mcpServers'' = Some (JObj (servers_of flds))"
  by (auto simp: entry_of_def servers_of_def split: option.splits json.splits)

lemma delete_entry_doc:
  assumes "truthy (entry_of flds)"
  shows "delete_spectator_entry (of_json (JObj flds)) =
           Inr (VObj (AList.update ''mcpServers''
                  (VObj (AList.delete ''spectator-voice-memory'' (map (map_prod id of_json) (servers_of flds))))
                  (map (map_prod id of_json) flds)))"
  using entry_servers [OF assms]
  by (simp add: delete_spectator_entry_def map_of_mapped)

lemma without_entry_plain:
  "a \<noteq> ClaudeCode \<Longrightarrow>
   without_entry a flds =
     AList.update ''mcpServers'' (JObj (AList.delete ''spectator-voice-memory'' (servers_of flds))) flds"
  by (simp add: without_entry_def)

lemma to_json_deleted:
  assumes "truthy (entry_of flds)" and "delete_spectator_entry (of_json (JObj flds)) = Inr c"
  shows "to_json c =
     JObj (AList.update ''mcpServers'' (JObj (AList.delete ''spectator-voice-memory'' (servers_of flds))) flds)"
  using assms(2) unfolding delete_entry_doc [OF assms(1)]
  by (auto simp: map_fields_update map_fields_delete [symmetric])

lemma removal_of_doc:
  assumes "removal_of c = Some c'"
  shows "\<exists>flds. c = Some (Json (JObj flds)) \<and> truthy (entry_of flds) \<and>
           to_json c' =
             JObj (AList.update ''mcpServers''
                     (JObj (AList.delete ''spectator-voice-memory'' (servers_of flds))) flds)"
proof -
  from assms obtain config where rv: "read_value c = Inr config" and t: "truthy (Some config)"
    and he: "has_entry config = Inr True" and d: "delete_spectator_entry config = Inr c'"
    by (auto simp: removal_of_def split: sum.splits if_splits)
  from rv t obtain j where c: "c = Some (Json j)" and cj: "config = of_json j"
    by (cases c; cases "the c") (auto simp: read_value_def)
  from he cj obtain flds where j: "j = JObj flds"
    by (cases j) (auto simp: has_entry_def split: if_splits)
  from he cj j has_entry_doc [of flds] have te: "truthy (entry_of flds)" by simp
  from d cj j have "delete_spectator_entry (of_json (JObj flds)) = Inr c'" by simp
  from to_json_deleted [OF te this] te c j show ?thesis by simp
qed

lemma removal_plan:
  assumes "read_value c = Inr config" and "truthy (Some config)"
    and "js_get (Some config) ''mcpServers'' = Inr m" and "truthy m"
    and "spectator_entry config = Inr e" and "truthy e"
    and "delete_spectator_entry config = Inr c'"
  shows "removal_of c = Some c'"
  using assms by (simp add: removal_of_def has_entry_def spectator_entry_def)

lemma write_then_ret:
  assumes "andThen (writeConfig env p c) (\<lambda>_. ret x) w = (r, w')"
  shows "\<exists>r'. writeConfig env p c w = (r', w')"
  using assms by (cases rule: andThen_cases) auto

lemma remove_file_effect:
  assumes "remove_file env p w = (r, w')"
  shows "w' = w \<or> (\<exists>c' r'. removal_of (files w p) = Some c' \<and> writeConfig env p c' w = (r', w'))"
  using assms unfolding remove_file_def
proof (cases rule: andThen_cases)
  case (fail e)
  then show ?thesis using readConfig_world by blast
next
  case (ok config w1)
  note rd = readConfig_value [OF ok(1)]
  show ?thesis
  proof (cases "truthy (Some config)")
    case False
    with ok(2) rd show ?thesis by simp
  next
    case t: True
    show ?thesis
    proof (cases "js_get (Some config) ''mcpServers''")
      case (Inl e)
      with ok(2) rd t show ?thesis by simp
    next
      case m: (Inr m)
      show ?thesis
      proof (cases "truthy m")
        case False
        with ok(2) rd t m show ?thesis by simp
      next
        case tm: True
        show ?thesis
        proof (cases "spectator_entry config")
          case (Inl e)
          with ok(2) rd t m tm show ?thesis by simp
        next
          case e: (Inr e)
          show ?thesis
          proof (cases "truthy e")
            case False
            with ok(2) rd t m tm e show ?thesis by simp
          next
            case te: True
            show ?thesis
            proof (cases "delete_spectator_entry config")
              case (Inl x)
              with ok(2) rd t m tm e te show ?thesis by simp
            next
              case d: (Inr c')
              from ok(2) rd t m tm e te d
              have "andThen (writeConfig env p c') (\<lambda>_. ret (Some (VBool True))) w = (r, w')"
                by simp
              from write_then_ret [OF this] removal_plan [OF conjunct2 [OF rd] t m tm e te d]
              show ?thesis by blast
            qed
          qed
        qed
      qed
    qed
  qed
qed


lemma entry_of_without [simp]: "\<not> truthy (entry_of (without_entry a flds))"
  by (simp add: without_entry_def entry_of_def servers_of_def update_conv' delete_conv' Let_def
      map_of_eq_None_iff)

lemma rewritten_removal_ok:
  assumes "rewritten a p w w'"
  shows "removal_ok a w w'"
proof -
  from assms consider (same) "files w' = files w"
    | (wr) flds where "files w p = Some (Json (JObj flds))" "truthy (entry_of flds)"
        "files w' = (files w)(p \<mapsto> Json (JObj (without_entry a flds)))"
    unfolding rewritten_def by blast
  then show ?thesis
  proof cases
    case same
    then show ?thesis by (simp add: removal_ok_def)
  next
    case wr
    show ?thesis
      unfolding removal_ok_def
    proof
      fix q
      show "files w' q = files w q \<or>
        (\<exists>flds. files w q = Some (Json (JObj flds)) \<and> truthy (entry_of flds) \<and>
           files w' q = Some (Json (JObj (without_entry a flds))))"
        using wr by (cases "q = p") auto
    qed
  qed
qed

lemma removal_ok_refl [simp]: "removal_ok a w w"
  by (simp add: removal_ok_def)

lemma removal_ok_trans:
  assumes "removal_ok a w w1" and "removal_ok a w1 w'"
  shows "removal_ok a w w'"
  unfolding removal_ok_def
proof
  fix q
  from assms(1) have 1: "files w1 q = files w q \<or>
        (\<exists>flds. files w q = Some (Json (JObj flds)) \<and> truthy (entry_of flds) \<and>
           files w1 q = Some (Json (JObj (without_entry a flds))))"
    by (simp add: removal_ok_def)
  from assms(2) have 2: "files w' q = files w1 q \<or>
        (\<exists>flds. files w1 q = Some (Json (JObj flds)) \<and> truthy (entry_of flds) \<and>
           files w' q = Some (Json (JObj (without_entry a flds))))"
    by (simp add: removal_ok_def)
  from 1 2 show "files w' q = files w q \<or>
        (\<exists>flds. files w q = Some (Json (JObj flds)) \<and> truthy (entry_of flds) \<and>
           files w' q = Some (Json (JObj (without_entry a flds))))"
    by (metis content.inject(2) entry_of_without json.inject(5) option.inject)
qed

lemma written_rewritten:
  assumes "removal_of (files w p) = Some c'" and "writeConfig env p c' w = (r', w')"
    and "a \<noteq> ClaudeCode"
  shows "rewritten a p w w'"
proof -
  from removal_of_doc [OF assms(1)] obtain flds where
    f: "files w p = Some (Json (JObj flds))" and t: "truthy (entry_of flds)"
    and j: "to_json c' = JObj (without_entry a flds)"
    using assms(3) by (auto simp: without_entry_plain)
  from writeConfig_effect [OF assms(2)] have
    "files w' = files w \<or> files w' = (files w)(p \<mapsto> JSON_stringify c')" by auto
  with f t j show ?thesis by (auto simp: rewritten_def JSON_stringify_def)
qed

lemma remove_file_ok:
  assumes "remove_file env p w = (r, w')" and "a \<noteq> ClaudeCode"
  shows "removal_ok a w w'"
proof -
  from remove_file_effect [OF assms(1)] show ?thesis
  proof
    assume "w' = w"
    then show ?thesis by simp
  next
    assume "\<exists>c' r'. removal_of (files w p) = Some c' \<and> writeConfig env p c' w = (r', w')"
    then obtain c' r' where "removal_of (files w p) = Some c'" "writeConfig env p c' w = (r', w')"
      by blast
    from written_rewritten [OF this assms(2)] show ?thesis by (rule rewritten_removal_ok)
  qed
qed

lemma remove_scopes_ok:
  assumes "remove_scopes env name scopes removed w = (r, w')" and "a \<noteq> ClaudeCode"
  shows "removal_ok a w w'"
  using assms(1)
proof (induction scopes arbitrary: removed w)
  case Nil
  then show ?case by simp
next
  case (Cons sc rest)
  show ?case
  proof (cases "existing_path w (getConfigPath env name (Some sc))")
    case None
    with Cons show ?thesis by simp
  next
    case (Some p)
    with Cons.prems have run:
      "andThen (readConfig p) (\<lambda>config.
         andThen (liftE (if \<not> truthy (Some config) then Inr False else has_entry config)) (\<lambda>present.
         if present
         then andThen (liftE (delete_spectator_entry config)) (\<lambda>config.
              andThen (writeConfig env p config) (\<lambda>_. remove_scopes env name rest True))
         else remove_scopes env name rest removed)) w = (r, w')"
      by simp
    then show ?thesis
    proof (cases rule: andThen_cases)
      case (fail e)
      then show ?thesis using readConfig_world [OF fail(1)] by simp
    next
      case (ok config w1)
      note rd = readConfig_value [OF ok(1)]
      show ?thesis
      proof (cases "if \<not> truthy (Some config) then Inr False else has_entry config")
        case (Inl e)
        with ok(2) rd show ?thesis by simp
      next
        case pr: (Inr present)
        show ?thesis
        proof (cases present)
          case False
          with ok(2) rd pr Cons.IH show ?thesis by simp
        next
          case True
          show ?thesis
          proof (cases "delete_spectator_entry config")
            case (Inl e)
            with ok(2) rd pr True show ?thesis by simp
          next
            case d: (Inr c')
            have plan: "removal_of (files w p) = Some c'"
              using rd pr True d by (simp add: removal_of_def)
            from ok(2) rd pr True d have
              "andThen (writeConfig env p c') (\<lambda>_. remove_scopes env name rest True) w = (r, w')"
              by simp
            then show ?thesis
            proof (cases rule: andThen_cases)
              case (fail e)
              from written_rewritten [OF plan fail(1) assms(2)] show ?thesis
                by (rule rewritten_removal_ok)
            next
              case (ok u w2)
              from written_rewritten [OF plan ok(1) assms(2)] have "removal_ok a w w2"
                by (rule rewritten_removal_ok)
              moreover from Cons.IH [OF ok(2)] have "removal_ok a w2 w'" .
              ultimately show ?thesis by (rule removal_ok_trans)
            qed
          qed
        qed
      qed
    qed
  qed
qed


lemma has_entry_object:
  assumes "has_entry (of_json j) = Inr True"
  shows "\<exists>flds. j = JObj flds \<and> truthy (entry_of flds)"
proof -
  from assms obtain flds where j: "j = JObj flds"
    by (cases j) (auto simp: has_entry_def split: if_splits)
  with assms has_entry_doc [of flds] show ?thesis by simp
qed

lemma claudecode_removal:
  assumes "truthy (entry_of flds)"
  shows "\<exists>c' c''. delete_spectator_entry (of_json (JObj flds)) = Inr c' \<and>
           drop_empty_servers c' = Inr c'' \<and>
           to_json c'' = JObj (without_entry ClaudeCode flds)"
proof -
  let ?fs = "map (map_prod id of_json) flds"
  let ?ss = "AList.delete ''spectator-voice-memory'' (map (map_prod id of_json) (servers_of flds))"
  let ?c' = "VObj (AList.update ''mcpServers'' (VObj ?ss) ?fs)"
  have d: "delete_spectator_entry (of_json (JObj flds)) = Inr ?c'"
    by (rule delete_entry_doc [OF assms])
  have e: "(?ss = []) = (AList.delete ''spectator-voice-memory'' (servers_of flds) = [])"
    by (simp add: map_fields_delete [symmetric])
  have dr: "drop_empty_servers ?c' =
              Inr (if AList.delete ''spectator-voice-memory'' (servers_of flds) = []
                   then VObj (AList.delete ''mcpServers'' ?fs) else ?c')"
    using e by (simp add: drop_empty_servers_def update_conv' delete_update_same)
  have "to_json (if AList.delete ''spectator-voice-memory'' (servers_of flds) = []
                   then VObj (AList.delete ''mcpServers'' ?fs) else ?c') =
          JObj (without_entry ClaudeCode flds)"
    by (simp add: without_entry_def map_fields_update Let_def map_fields_delete [symmetric])
  with d dr show ?thesis by blast
qed

lemma ClaudeCode_remove_ok:
  assumes "ClaudeCode_remove env w = (r, w')"
  shows "removal_ok ClaudeCode w w'"
proof -
  let ?p = "ClaudeCode_getConfigPath env"
  show ?thesis
  proof (cases "existsSync w ?p")
    case False
    with assms show ?thesis by (simp add: ClaudeCode_remove_def Let_def)
  next
    case ex: True
    show ?thesis
    proof (cases "thenE (readFileSync w ?p) JSON_parse")
      case (Inl e)
      with assms ex show ?thesis by (simp add: ClaudeCode_remove_def rethrow_def Let_def)
    next
      case rd: (Inr config)
      then obtain j where f: "files w ?p = Some (Json j)" and cj: "config = of_json j"
        by (cases "files w ?p"; cases "the (files w ?p)")
           (auto simp: readFileSync_def split: if_splits)
      show ?thesis
      proof (cases "has_entry config")
        case (Inl e)
        with assms ex rd show ?thesis by (simp add: ClaudeCode_remove_def rethrow_def Let_def)
      next
        case pr: (Inr present)
        show ?thesis
        proof (cases present)
          case False
          with assms ex rd pr show ?thesis by (simp add: ClaudeCode_remove_def rethrow_def Let_def)
        next
          case True
          with pr cj have "has_entry (of_json j) = Inr True" by simp
          from has_entry_object [OF this] obtain flds where j: "j = JObj flds" and te: "truthy (entry_of flds)"
            by blast
          from claudecode_removal [OF te] obtain c' c'' where
            d: "delete_spectator_entry config = Inr c'" and dr: "drop_empty_servers c' = Inr c''"
            and tj: "to_json c'' = JObj (without_entry ClaudeCode flds)"
            using cj j by auto
          from assms ex rd pr True d dr have
            "files w' = files w \<or> files w' = (files w)(?p \<mapsto> JSON_stringify c'')"
            by (auto simp: ClaudeCode_remove_def rethrow_def andThen_def writeFileSync_def Let_def
                split: if_splits prod.splits sum.splits)
          then have "rewritten ClaudeCode ?p w w'"
            using f j te tj by (auto simp: rewritten_def JSON_stringify_def)
          then show ?thesis by (rule rewritten_removal_ok)
        qed
      qed
    qed
  qed
qed

lemma require_path_world:
  "andThen (liftE (require_path cp msg)) f w = (r, w') \<Longrightarrow>
   w' = w \<or> (\<exists>p. resolved cp = Some p \<and> f p w = (r, w'))"
  by (auto simp: require_path_resolved split: option.splits)

lemma single_path_remove_ok:
  assumes "andThen (liftE (require_path cp msg)) (remove_file env) w = (r, w')" and "a \<noteq> ClaudeCode"
  shows "removal_ok a w w'"
proof -
  from require_path_world [OF assms(1)] show ?thesis
  proof
    assume "w' = w"
    then show ?thesis by simp
  next
    assume "\<exists>p. resolved cp = Some p \<and> remove_file env p w = (r, w')"
    then obtain p where "remove_file env p w = (r, w')" by blast
    from remove_file_ok [OF this assms(2)] show ?thesis .
  qed
qed

lemma remove_ok:
  assumes "remove a env w = (r, w')"
  shows "removal_ok a w w'"
proof (cases a)
  case ClaudePlatform
  with assms show ?thesis
    unfolding ClaudePlatform remove.simps Claude_remove_def by (intro single_path_remove_ok) auto
next
  case ClaudeCode
  with assms show ?thesis by (simp add: ClaudeCode_remove_ok)
next
  case CursorPlatform
  with assms have "andThen (remove_scopes env ''cursor'' [''global'', ''project''] False)
       (\<lambda>removed. ret (Some (VBool removed))) w = (r, w')"
    by (simp add: Cursor_remove_def)
  then obtain b where "remove_scopes env ''cursor'' [''global'', ''project''] False w = (b, w')"
    by (cases rule: andThen_cases) auto
  from remove_scopes_ok [OF this] CursorPlatform show ?thesis by simp
next
  case WindsurfPlatform
  with assms show ?thesis
    unfolding WindsurfPlatform remove.simps Windsurf_remove_def by (intro single_path_remove_ok) auto
next
  case WindsurfPlatform_old
  with assms show ?thesis
    unfolding WindsurfPlatform_old remove.simps Windsurf_remove_def by (intro single_path_remove_ok) auto
next
  case VSCodePlatform
  with assms have "andThen (remove_scopes env ''vscode'' [''global'', ''project''] False)
       (\<lambda>removed. ret (Some (VBool removed))) w = (r, w')"
    by (simp add: VSCode_remove_def)
  then obtain b where "remove_scopes env ''vscode'' [''global'', ''project''] False w = (b, w')"
    by (cases rule: andThen_cases) auto
  from remove_scopes_ok [OF this] VSCodePlatform show ?thesis by simp
next
  case ClinePlatform
  with assms show ?thesis
    unfolding ClinePlatform remove.simps Cline_remove_def by (intro single_path_remove_ok) auto
qed

lemma remove_file_quiet:
  assumes "\<not> existsSync w p \<or> (\<exists>flds. files w p = Some (Json (JObj flds)) \<and> \<not> truthy (entry_of flds))"
  shows "remove_file env p w = (Inr (Some (VBool False)), w)"
  using assms
proof
  assume "\<not> existsSync w p"
  then show ?thesis by (simp add: remove_file_def andThen_def readConfig_absent)
next
  assume "\<exists>flds. files w p = Some (Json (JObj flds)) \<and> \<not> truthy (entry_of flds)"
  then obtain flds where f: "files w p = Some (Json (JObj flds))" and n: "\<not> truthy (entry_of flds)"
    by blast
  from has_entry_doc [of flds] n have h: "has_entry (VObj (map (map_prod id of_json) flds)) = Inr False"
    by simp
  show ?thesis
  proof (cases "map_of (map (map_prod id of_json) flds) ''mcpServers''")
    case None
    then show ?thesis
      by (simp add: remove_file_def andThen_def readConfig_json [OF f])
  next
    case (Some m)
    with h show ?thesis
      by (cases m)
         (auto simp: remove_file_def andThen_def readConfig_json [OF f] has_entry_def spectator_entry_def
            split: if_splits)
  qed
qed

lemma no_entry_existing:
  assumes "no_entry_at w cp" and "existing_path w cp = Some p"
  shows "\<exists>flds. files w p = Some (Json (JObj flds)) \<and> \<not> truthy (entry_of flds)"
  using assms
  by (cases cp) (auto simp: no_entry_at_def existing_path_def resolved_def split: if_splits)

lemma remove_scopes_quiet:
  assumes "list_all (\<lambda>sc. no_entry_at w (getConfigPath env name (Some sc))) scopes"
  shows "remove_scopes env name scopes removed w = (Inr removed, w)"
  using assms
proof (induction scopes)
  case Nil
  then show ?case by simp
next
  case (Cons sc rest)
  then have ne: "no_entry_at w (getConfigPath env name (Some sc))"
    and ih: "remove_scopes env name rest removed w = (Inr removed, w)"
    by simp_all
  show ?case
  proof (cases "existing_path w (getConfigPath env name (Some sc))")
    case None
    with ih show ?thesis by simp
  next
    case (Some p)
    from no_entry_existing [OF ne Some] obtain flds where
      f: "files w p = Some (Json (JObj flds))" and n: "\<not> truthy (entry_of flds)"
      by blast
    from has_entry_doc [of flds] n have h: "has_entry (VObj (map (map_prod id of_json) flds)) = Inr False"
      by simp
    show ?thesis
      by (simp add: Some andThen_def readConfig_json [OF f] h ih)
  qed
qed

lemma ClaudeCode_remove_quiet:
  assumes "no_entry_at w (Some (ClaudeCode_getConfigPath env))"
    and "resolved (Some (ClaudeCode_getConfigPath env)) \<noteq> None"
  shows "ClaudeCode_remove env w = (Inr None, w)"
proof (cases "existsSync w (ClaudeCode_getConfigPath env)")
  case False
  then show ?thesis by (simp add: ClaudeCode_remove_def Let_def)
next
  case True
  with assms obtain flds where
    f: "files w (ClaudeCode_getConfigPath env) = Some (Json (JObj flds))" and n: "\<not> truthy (entry_of flds)"
    by (auto simp: no_entry_at_def resolved_def split: if_splits)
  from has_entry_doc [of flds] n have h: "has_entry (VObj (map (map_prod id of_json) flds)) = Inr False"
    by simp
  show ?thesis
    by (simp add: ClaudeCode_remove_def Let_def True rethrow_def andThen_def readFileSync_def f h)
qed

lemma single_path_quiet:
  assumes "no_entry_at w cp" and "resolved cp \<noteq> None"
  shows "andThen (liftE (require_path cp msg)) (remove_file env) w = (Inr (Some (VBool False)), w)"
proof -
  from assms(2) obtain p where r: "resolved cp = Some p" by auto
  with assms(1) have "\<not> existsSync w p \<or>
      (\<exists>flds. files w p = Some (Json (JObj flds)) \<and> \<not> truthy (entry_of flds))"
    by (simp add: no_entry_at_def)
  from remove_file_quiet [OF this] r show ?thesis
    by (simp add: require_path_resolved)
qed

lemma remove_quiet:
  assumes "list_all (no_entry_at w) (config_paths a env)" and "paths_known a env"
  shows "\<exists>r. remove a env w = (Inr r, w) \<and> \<not> truthy r"
proof (cases a)
  case ClaudePlatform
  with assms show ?thesis
    by (simp add: Claude_remove_def config_paths_def paths_known_def single_path_quiet del: andThen_liftE)
next
  case ClaudeCode
  with assms show ?thesis
    by (simp add: config_paths_def paths_known_def ClaudeCode_remove_quiet)
next
  case CursorPlatform
  with assms have "list_all (\<lambda>sc. no_entry_at w (getConfigPath env ''cursor'' (Some sc))) [''global'', ''project'']"
    by (simp add: config_paths_def)
  from remove_scopes_quiet [OF this, of False] show ?thesis
    unfolding CursorPlatform remove.simps Cursor_remove_def by (simp add: andThen_def del: remove_scopes.simps)
next
  case WindsurfPlatform
  with assms show ?thesis
    by (simp add: Windsurf_remove_def config_paths_def paths_known_def single_path_quiet del: andThen_liftE)
next
  case WindsurfPlatform_old
  with assms show ?thesis
    by (simp add: Windsurf_remove_def config_paths_def paths_known_def single_path_quiet del: andThen_liftE)
next
  case VSCodePlatform
  with assms have "list_all (\<lambda>sc. no_entry_at w (getConfigPath env ''vscode'' (Some sc))) [''global'', ''project'']"
    by (simp add: config_paths_def)
  from remove_scopes_quiet [OF this, of False] show ?thesis
    unfolding VSCodePlatform remove.simps VSCode_remove_def by (simp add: andThen_def del: remove_scopes.simps)
next
  case ClinePlatform
  with assms show ?thesis
    by (simp add: Cline_remove_def config_paths_def paths_known_def single_path_quiet del: andThen_liftE)
qed

subsection \<open>Successful runs of remove\<close>

lemma spectator_entry_doc:
  "truthy (entry_of flds) \<Longrightarrow> spectator_entry (of_json (JObj flds)) = Inr (entry_of flds)"
  using entry_servers [of flds]
  by (simp add: spectator_entry_def map_of_mapped entry_of_def)

lemma remove_file_doc:
  assumes "files w p = Some (Json (JObj flds))" and "truthy (entry_of flds)"
    and "p \<notin> locked w" and "p \<notin> dirs w" and "dirname env p \<in> dirs w"
  shows "remove_file env p w = (Inr (Some (VBool True)), after_remove ClinePlatform p flds w)"
proof -
  obtain c where d: "delete_spectator_entry (of_json (JObj flds)) = Inr c"
    using delete_entry_doc [OF assms(2)] by blast
  from to_json_deleted [OF assms(2) d]
  have t: "JSON_stringify c = Json (JObj (without_entry ClinePlatform flds))"
    by (simp add: JSON_stringify_def without_entry_plain)
  have m: "map_of (map (map_prod id of_json) flds) ''mcpServers'' =
             Some (of_json (JObj (servers_of flds)))"
    using entry_servers [OF assms(2)] by (simp add: map_of_mapped)
  from spectator_entry_doc [OF assms(2)] d
  show ?thesis
    by (simp add: remove_file_def andThen_def readConfig_json [OF assms(1)] m assms(2)
        writeConfig_plain [OF assms(3-5)] t after_remove_def)
qed

lemma ClaudeCode_remove_doc:
  assumes "files w (ClaudeCode_getConfigPath env) = Some (Json (JObj flds))" and "truthy (entry_of flds)"
    and "ClaudeCode_getConfigPath env \<notin> locked w" and "ClaudeCode_getConfigPath env \<notin> dirs w"
    and "dirname env (ClaudeCode_getConfigPath env) \<in> dirs w"
  shows "ClaudeCode_remove env w =
           (Inr None, after_remove ClaudeCode (ClaudeCode_getConfigPath env) flds w)"
proof -
  from claudecode_removal [OF assms(2)] obtain c' c'' where
    d: "delete_spectator_entry (of_json (JObj flds)) = Inr c'" and dr: "drop_empty_servers c' = Inr c''"
    and tj: "to_json c'' = JObj (without_entry ClaudeCode flds)"
    by blast
  from has_entry_doc [of flds] assms(2)
  have h: "has_entry (of_json (JObj flds)) = Inr True" by simp
  from d dr h show ?thesis
    by (simp add: ClaudeCode_remove_def Let_def existsSync_def assms rethrow_def andThen_def
        readFileSync_def writeFileSync_def JSON_stringify_def tj after_remove_def)
qed

lemma scope_step_hit:
  assumes "resolved (getConfigPath env name (Some sc)) = Some p"
    and "files w p = Some (Json (JObj flds))" and "truthy (entry_of flds)"
    and "p \<notin> locked w" and "p \<notin> dirs w" and "dirname env p \<in> dirs w"
  shows "remove_scopes env name (sc # rest) removed w =
           remove_scopes env name rest True (after_remove CursorPlatform p flds w)"
proof -
  have e: "existing_path w (getConfigPath env name (Some sc)) = Some p"
    using assms(1,2)
    by (auto simp: existing_path_def resolved_def existsSync_def split: option.splits if_splits)
  obtain c where d: "delete_spectator_entry (of_json (JObj flds)) = Inr c"
    using delete_entry_doc [OF assms(3)] by blast
  from to_json_deleted [OF assms(3) d]
  have t: "JSON_stringify c = Json (JObj (without_entry CursorPlatform flds))"
    by (simp add: JSON_stringify_def without_entry_plain)
  from has_entry_doc [of flds] assms(3)
  have h: "has_entry (of_json (JObj flds)) = Inr True" by simp
  from d h show ?thesis
    by (simp add: e andThen_def readConfig_json [OF assms(2)]
        writeConfig_plain [OF assms(4-6)] t after_remove_def)
qed

lemma scope_step_miss:
  assumes "no_entry_at w (getConfigPath env name (Some sc))"
  shows "remove_scopes env name (sc # rest) removed w = remove_scopes env name rest removed w"
proof (cases "existing_path w (getConfigPath env name (Some sc))")
  case None
  then show ?thesis by simp
next
  case (Some p)
  from no_entry_existing [OF assms Some] obtain flds where
    f: "files w p = Some (Json (JObj flds))" and n: "\<not> truthy (entry_of flds)"
    by blast
  from has_entry_doc [of flds] n have h: "has_entry (VObj (map (map_prod id of_json) flds)) = Inr False"
    by simp
  show ?thesis
    by (simp add: Some andThen_def readConfig_json [OF f] h)
qed


lemma existsSync_after_remove:
  "q \<noteq> p \<Longrightarrow> existsSync (after_remove a p flds w) q = existsSync w q"
  by (simp add: existsSync_def after_remove_def)

lemma elsewhere_after_remove [simp]:
  "elsewhere_empty env (after_remove a p flds w) p cp = elsewhere_empty env w p cp"
  by (auto simp: elsewhere_empty_def existsSync_after_remove split: option.splits)

lemma elsewhere_no_entry:
  assumes "elsewhere_empty env w p cp" and "files w p = Some (Json (JObj flds))"
    and "\<not> truthy (entry_of flds) \<or> resolved cp \<noteq> Some p"
  shows "no_entry_at w cp"
  using assms by (auto simp: elsewhere_empty_def no_entry_at_def split: option.splits)

lemma remove_scopes_reach:
  assumes "files w p = Some (Json (JObj flds))" and "p \<notin> locked w" and "p \<notin> dirs w"
    and "dirname env p \<in> dirs w"
    and "list_all (\<lambda>sc. elsewhere_empty env w p (getConfigPath env name (Some sc))) scopes"
  shows "\<exists>r w'. remove_scopes env name scopes removed w = (Inr r, w') \<and>
           files w' p =
             Some (Json (JObj (if truthy (entry_of flds) \<and>
                                  list_ex (\<lambda>sc. resolved (getConfigPath env name (Some sc)) = Some p) scopes
                               then without_entry CursorPlatform flds else flds)))"
  using assms
proof (induction scopes arbitrary: w flds removed)
  case Nil
  then show ?case by simp
next
  case (Cons sc rest)
  let ?cp = "getConfigPath env name (Some sc)"
  from Cons.prems(5) have here: "elsewhere_empty env w p ?cp"
    and there: "list_all (\<lambda>sc. elsewhere_empty env w p (getConfigPath env name (Some sc))) rest"
    by simp_all
  show ?case
  proof (cases "truthy (entry_of flds) \<and> resolved ?cp = Some p")
    case True
    then have te: "truthy (entry_of flds)" and rp: "resolved ?cp = Some p" by simp_all
    let ?w1 = "after_remove CursorPlatform p flds w"
    have step: "remove_scopes env name (sc # rest) removed w = remove_scopes env name rest True ?w1"
      by (rule scope_step_hit [OF rp Cons.prems(1) te Cons.prems(2-4)])
    have f1: "files ?w1 p = Some (Json (JObj (without_entry CursorPlatform flds)))"
      by (simp add: after_remove_def)
    have l1: "p \<notin> locked ?w1" "p \<notin> dirs ?w1" "dirname env p \<in> dirs ?w1"
      using Cons.prems(2-4) by (simp_all add: after_remove_def)
    from there have t1: "list_all (\<lambda>sc. elsewhere_empty env ?w1 p (getConfigPath env name (Some sc))) rest"
      by simp
    from Cons.IH [OF f1 l1 t1, of True] obtain r w' where
      "remove_scopes env name rest True ?w1 = (Inr r, w')"
      "files w' p = Some (Json (JObj (without_entry CursorPlatform flds)))"
      by auto
    with step True show ?thesis by simp
  next
    case False
    then have "\<not> truthy (entry_of flds) \<or> resolved ?cp \<noteq> Some p" by blast
    from elsewhere_no_entry [OF here Cons.prems(1) this]
    have step: "remove_scopes env name (sc # rest) removed w = remove_scopes env name rest removed w"
      by (rule scope_step_miss)
    from Cons.IH [OF Cons.prems(1-4) there, of removed] obtain r w' where
      "remove_scopes env name rest removed w = (Inr r, w')"
      "files w' p =
         Some (Json (JObj (if truthy (entry_of flds) \<and>
                              list_ex (\<lambda>sc. resolved (getConfigPath env name (Some sc)) = Some p) rest
                           then without_entry CursorPlatform flds else flds)))"
      by blast
    with step False show ?thesis by auto
  qed
qed

lemma remove_reach:
  assumes "files w p = Some (Json (JObj flds))" and "truthy (entry_of flds)"
    and "p \<notin> locked w" and "p \<notin> dirs w" and "dirname env p \<in> dirs w"
    and "list_ex (\<lambda>cp. resolved cp = Some p) (config_paths a env)"
    and "list_all (elsewhere_empty env w p) (config_paths a env)"
  shows "\<exists>r w'. remove a env w = (Inr r, w') \<and>
           files w' p = Some (Json (JObj (without_entry a flds)))"
proof -
  have single: "\<exists>r w'. andThen (liftE (require_path cp msg)) (remove_file env) w = (Inr r, w') \<and>
           files w' p = Some (Json (JObj (without_entry ClinePlatform flds)))"
    if "resolved cp = Some p" for cp msg
    using that remove_file_doc [OF assms(1-5)]
    by (simp add: require_path_resolved after_remove_def)
  have two: "\<exists>r w'. andThen (remove_scopes env name [''global'', ''project''] False)
                        (\<lambda>removed. ret (Some (VBool removed))) w = (Inr r, w') \<and>
           files w' p = Some (Json (JObj (without_entry CursorPlatform flds)))"
    if "list_ex (\<lambda>cp. resolved cp = Some p)
          [getConfigPath env name (Some ''global''), getConfigPath env name (Some ''project'')]"
      and "list_all (elsewhere_empty env w p)
          [getConfigPath env name (Some ''global''), getConfigPath env name (Some ''project'')]"
    for name
  proof -
    from that(2) have "list_all (\<lambda>sc. elsewhere_empty env w p (getConfigPath env name (Some sc)))
        [''global'', ''project'']" by simp
    from remove_scopes_reach [OF assms(1) assms(3-5) this, of False] that(1) assms(2)
    obtain r w' where "remove_scopes env name [''global'', ''project''] False w = (Inr r, w')"
      "files w' p = Some (Json (JObj (without_entry CursorPlatform flds)))"
      by (auto simp del: remove_scopes.simps)
    then show ?thesis by (simp add: andThen_def del: remove_scopes.simps)
  qed
  show ?thesis
  proof (cases a)
    case ClaudePlatform
    with assms(6) single show ?thesis
      by (simp add: Claude_remove_def config_paths_def without_entry_def del: andThen_liftE)
  next
    case ClaudeCode
    with assms(6) have p: "p = ClaudeCode_getConfigPath env"
      by (auto simp: config_paths_def resolved_def split: if_splits)
    from ClaudeCode_remove_doc [of w env flds] assms(1-5) show ?thesis
      unfolding ClaudeCode p by (simp add: after_remove_def)
  next
    case CursorPlatform
    with assms(6,7) two [of "''cursor''"] show ?thesis
      by (simp add: Cursor_remove_def config_paths_def without_entry_def del: remove_scopes.simps)
  next
    case WindsurfPlatform
    with assms(6) single show ?thesis
      by (simp add: Windsurf_remove_def config_paths_def without_entry_def del: andThen_liftE)
  next
    case WindsurfPlatform_old
    with assms(6) single show ?thesis
      by (simp add: Windsurf_remove_def config_paths_def without_entry_def del: andThen_liftE)
  next
    case VSCodePlatform
    with assms(6,7) two [of "''vscode''"] show ?thesis
      by (simp add: VSCode_remove_def config_paths_def without_entry_def del: remove_scopes.simps)
  next
    case ClinePlatform
    with assms(6) single show ?thesis
      by (simp add: Cline_remove_def config_paths_def without_entry_def del: andThen_liftE)
  qed
qed

subsection \<open>Sibling entries and other fields survive configure\<close>

lemma sample_paths [simp]:
  "configure_path CursorPlatform sample_env (Some ''global'') = Some ''/home/u/.cursor/mcp.json''"
  "configure_path VSCodePlatform sample_env (Some ''global'') = Some ''/home/u/.vscode/mcp.json''"
  by (simp_all add: configure_path_def resolved_def or_default_def sample_env_def sample_getConfigPath_def)

lemma sample_copy_allowed [simp]:
  "copy_allowed sample_env cursor_world ''/home/u/.cursor/mcp.json''"
  "copy_allowed sample_env vscode_world ''/home/u/.vscode/mcp.json''"
  by (simp_all add: copy_allowed_def backup_path_def cursor_world_def vscode_world_def world_with_def)



subsection \<open>When a backup is made\<close>

text \<open>
  Claim C2, as amended. For every adapter other than Claude Code, when the backup path
  can be written: the operations of \<^verbatim>\<open>configure\<close> begin with the copy of the file to
  \<^verbatim>\<open><path>.backup.<now>\<close> exactly when a backup is due, they hold no other copy, and
  the backup holds the text the file had before. A backup is due, for Cursor and
  Windsurf, when the file exists and its document has a truthy
  \<^verbatim>\<open>spectator-voice-memory\<close> entry; for Claude Desktop, VS Code, Cline and the older
  Windsurf copy, when the file exists. So the copy comes before any write, and a missing
  file never gives a backup.
\<close>

theorem backup_policy:
  assumes "configure a env apiKey sc w = (r, w')"
    and "configure_path a env sc = Some p"
    and "copy_allowed env w p"
    and "a \<noteq> ClaudeCode"
  shows "\<exists>ops. trace w' = trace w @ (if backup_due a w p then [Copy p (backup_path env p)] else []) @ ops \<and>
               (\<forall>s d. Copy s d \<notin> set ops) \<and>
               (backup_due a w p \<longrightarrow> files w' (backup_path env p) = files w p)"
proof -
  from assms(1) have "configure_body a env apiKey p w = (r, w')"
    by (simp add: configure_at [OF assms(2)])
  from configure_body_effect [OF this] assms(3) show ?thesis
    by (auto simp: effect_ok_def)
qed

theorem backup_policy_witness:
  "configure_path CursorPlatform sample_env (Some ''global'') = Some ''/home/u/.cursor/mcp.json'' \<and>
   copy_allowed sample_env cursor_world ''/home/u/.cursor/mcp.json'' \<and>
   CursorPlatform \<noteq> ClaudeCode \<and>
   (\<exists>ops. trace (snd (configure CursorPlatform sample_env ''abc123xyz'' (Some ''global'') cursor_world)) =
            trace cursor_world @
            (if backup_due CursorPlatform cursor_world ''/home/u/.cursor/mcp.json''
             then [Copy ''/home/u/.cursor/mcp.json'' (backup_path sample_env ''/home/u/.cursor/mcp.json'')]
             else []) @ ops \<and>
          (\<forall>s d. Copy s d \<notin> set ops))"
proof -
  let ?res = "configure CursorPlatform sample_env ''abc123xyz'' (Some ''global'') cursor_world"
  have c: "?res = (fst ?res, snd ?res)" by simp
  have n: "CursorPlatform \<noteq> ClaudeCode" by simp
  from backup_policy [OF c sample_paths(1) sample_copy_allowed(1) n]
    sample_paths(1) sample_copy_allowed(1) n
  show ?thesis by blast
qed

text \<open>
  The claim as stated fails for VS Code: the file exists, its document has no
  \<^verbatim>\<open>spectator-voice-memory\<close> entry, and \<^verbatim>\<open>configure\<close> copies it to a backup.
\<close>

theorem backup_without_entry_counterexample:
  "files vscode_world ''/home/u/.vscode/mcp.json'' = Some (Json (JObj other_tool_fields)) \<and>
   map_of (servers_of other_tool_fields) ''spectator-voice-memory'' = None \<and>
   Copy ''/home/u/.vscode/mcp.json'' (backup_path sample_env ''/home/u/.vscode/mcp.json'')
     \<in> set (trace (snd (configure VSCodePlatform sample_env ''abc123xyz'' (Some ''global'') vscode_world)))"
proof -
  have f: "files vscode_world ''/home/u/.vscode/mcp.json'' = Some (Json (JObj other_tool_fields))"
    by (simp add: vscode_world_def world_with_def)
  have s: "map_of (servers_of other_tool_fields) ''spectator-voice-memory'' = None"
    by (simp add: servers_of_def other_tool_fields_def)
  let ?res = "configure VSCodePlatform sample_env ''abc123xyz'' (Some ''global'') vscode_world"
  have "configure_body VSCodePlatform sample_env ''abc123xyz'' ''/home/u/.vscode/mcp.json'' vscode_world =
          (fst ?res, snd ?res)"
    unfolding configure_at [OF sample_paths(2), symmetric] by simp
  from configure_body_effect [OF this] f sample_copy_allowed(2)
  have "\<exists>ops. trace (snd (configure VSCodePlatform sample_env ''abc123xyz'' (Some ''global'') vscode_world)) =
          trace vscode_world @
          [Copy ''/home/u/.vscode/mcp.json'' (backup_path sample_env ''/home/u/.vscode/mcp.json'')] @ ops"
    by (auto simp: effect_ok_def backup_due_def)
  with f s show ?thesis by auto
qed

subsection \<open>Reading a configuration\<close>

text \<open>
  Claim C3, as amended. \<^verbatim>\<open>readConfig\<close> never changes the file system. Where
  nothing exists at the path it returns \<^verbatim>\<open>null\<close> without an error, and
  \<^verbatim>\<open>null || {}\<close>, as the adapters' \<^verbatim>\<open>configure\<close> continues, is the empty
  object. Where the file exists and its text is not valid JSON, it throws an Error whose
  message is \<^verbatim>\<open>Failed to read config from <path>: <message of the parser>\<close>, which
  names the path.
\<close>

theorem readConfig_contract:
  "snd (readConfig p w) = w \<and>
   (\<not> existsSync w p \<longrightarrow>
      fst (readConfig p w) = Inr VNull \<and> js_or VNull (VObj []) = VObj []) \<and>
   (files w p = Some (Garbled m) \<longrightarrow>
      fst (readConfig p w) = Inl (Error (''Failed to read config from '' @ p @ '': '' @ m))) \<and>
   (files w p = Some Blank \<longrightarrow>
      fst (readConfig p w) =
        Inl (Error (''Failed to read config from '' @ p @ '': '' @ ''Unexpected end of JSON input'')))"
proof -
  have 1: "snd (readConfig p w) = w" by (rule readConfig_pure)
  have 2: "\<not> existsSync w p \<longrightarrow>
      fst (readConfig p w) = Inr VNull \<and> js_or VNull (VObj []) = VObj []"
    by (simp add: readConfig_def)
  have 3: "files w p = Some (Garbled m) \<longrightarrow>
      fst (readConfig p w) = Inl (Error (''Failed to read config from '' @ p @ '': '' @ m))"
    by (simp add: readConfig_def existsSync_def readFileSync_def)
  have 4: "files w p = Some Blank \<longrightarrow>
      fst (readConfig p w) =
        Inl (Error (''Failed to read config from '' @ p @ '': '' @ ''Unexpected end of JSON input''))"
    by (simp add: readConfig_def existsSync_def readFileSync_def)
  from 1 2 3 4 show ?thesis by blast
qed

theorem readConfig_contract_witness:
  "\<not> existsSync empty_world ''/home/u/.cursor/mcp.json'' \<and>
   fst (readConfig ''/home/u/.cursor/mcp.json'' empty_world) = Inr VNull \<and>
   files (world_with ''/home/u/.cursor'' ''/home/u/.cursor/mcp.json'' (Garbled ''Unexpected token''))
      ''/home/u/.cursor/mcp.json'' = Some (Garbled ''Unexpected token'') \<and>
   fst (readConfig ''/home/u/.cursor/mcp.json''
          (world_with ''/home/u/.cursor'' ''/home/u/.cursor/mcp.json'' (Garbled ''Unexpected token''))) =
     Inl (Error (''Failed to read config from '' @ ''/home/u/.cursor/mcp.json'' @ '': '' @ ''Unexpected token''))"
proof -
  have a: "\<not> existsSync empty_world ''/home/u/.cursor/mcp.json''"
    by (simp add: existsSync_def empty_world_def)
  have b: "files (world_with ''/home/u/.cursor'' ''/home/u/.cursor/mcp.json'' (Garbled ''Unexpected token''))
      ''/home/u/.cursor/mcp.json'' = Some (Garbled ''Unexpected token'')"
    by (simp add: world_with_def)
  from readConfig_contract [of "''/home/u/.cursor/mcp.json''" empty_world "''Unexpected token''"] a
  have 1: "fst (readConfig ''/home/u/.cursor/mcp.json'' empty_world) = Inr VNull" by blast
  from readConfig_contract [of "''/home/u/.cursor/mcp.json''"
      "world_with ''/home/u/.cursor'' ''/home/u/.cursor/mcp.json'' (Garbled ''Unexpected token'')"
      "''Unexpected token''"] b
  have 2: "fst (readConfig ''/home/u/.cursor/mcp.json''
          (world_with ''/home/u/.cursor'' ''/home/u/.cursor/mcp.json'' (Garbled ''Unexpected token''))) =
     Inl (Error (''Failed to read config from '' @ ''/home/u/.cursor/mcp.json'' @ '': '' @ ''Unexpected token''))"
    by blast
  from a b 1 2 show ?thesis by blast
qed

text \<open>
  The claim as stated fails: for a missing file the result is \<^verbatim>\<open>null\<close>, not the
  empty document.
\<close>

theorem readConfig_missing_counterexample:
  "\<not> existsSync empty_world ''/home/u/.cursor/mcp.json'' \<and>
   fst (readConfig ''/home/u/.cursor/mcp.json'' empty_world) \<noteq> Inr (VObj [])"
  by (simp add: readConfig_def existsSync_def empty_world_def)

subsection \<open>The first configuration of a platform\<close>

lemma sample_fresh:
  "fresh sample_env empty_world ''/home/u/.cursor/mcp.json''"
  "fresh sample_env empty_world ''/home/u/.vscode/mcp.json''"
  by (simp_all add: fresh_def existsSync_def empty_world_def sample_env_def sample_dirname_def)

text \<open>
  Claim C4, as amended. For every adapter and every API key, \<^verbatim>\<open>configure\<close> on a path
  where nothing exists, with a parent directory that exists or can be made, succeeds:
  the parent directory exists afterwards (it is made first when it was missing), the
  file holds exactly
  \<^verbatim>\<open>{"mcpServers":{"spectator-voice-memory":{"command":"npx","args":["-y","mcp-remote","https://spectatorcontext.com/mcp-server/mcp/<API_KEY>"]}}}\<close>
  with the key at the end of the third argument, and the value returned reads as
  "not updated" (\<^verbatim>\<open>result?.updated\<close> is falsy): Claude Code returns a record with
  \<^verbatim>\<open>updated: false\<close>, Cursor and Windsurf a record whose \<^verbatim>\<open>updated\<close> is
  \<^verbatim>\<open>undefined\<close>, the other adapters the boolean \<^verbatim>\<open>true\<close>.
\<close>

theorem first_configure:
  assumes "configure_path a env sc = Some p" and "fresh env w p"
  shows "\<exists>r w'. configure a env apiKey sc w = (Inr r, w') \<and>
           dirname env p \<in> dirs w' \<and>
           files w' p =
             Some (Json (JObj [(''mcpServers'',
               JObj [(''spectator-voice-memory'',
                 JObj [(''command'', JStr ''npx''),
                       (''args'', JArr [JStr ''-y'', JStr ''mcp-remote'',
                          JStr (''https://spectatorcontext.com/mcp-server/mcp/'' @ apiKey)])])])])) \<and>
           trace w' = trace w @ (if dirname env p \<in> dirs w then [] else [Mkdir (dirname env p)]) @
             [Write p (Json (JObj (put_entry apiKey [])))] \<and>
           \<not> truthy (result_updated r) \<and>
           r = (case a of
                  ClaudeCode \<Rightarrow> Ret_record (Some (VBool False)) False (Some p)
                | CursorPlatform \<Rightarrow> Ret_record None False None
                | WindsurfPlatform \<Rightarrow> Ret_record None False None
                | _ \<Rightarrow> Ret_true)"
proof -
  from assms(2) have n: "\<not> existsSync w p" by (simp add: fresh_def)
  have c: "configure a env apiKey sc w =
             (Inr (expected_result a apiKey p []), after_configure a env apiKey p [] w)"
    by (simp add: configure_at [OF assms(1)] configure_body_fresh [OF assms(2)])
  have r: "expected_result a apiKey p [] =
             (case a of
                ClaudeCode \<Rightarrow> Ret_record (Some (VBool False)) False (Some p)
              | CursorPlatform \<Rightarrow> Ret_record None False None
              | WindsurfPlatform \<Rightarrow> Ret_record None False None
              | _ \<Rightarrow> Ret_true)"
    by (cases a) (simp_all add: expected_result_def)
  have u: "\<not> truthy (result_updated (expected_result a apiKey p []))"
    by (cases a) (simp_all add: expected_result_def)
  show ?thesis
    unfolding c using r u
    by (simp add: after_configure_def fresh_backup_due [OF n] put_entry_def canonical_json_def)
qed

theorem first_configure_witness:
  "configure_path CursorPlatform sample_env (Some ''global'') = Some ''/home/u/.cursor/mcp.json'' \<and>
   fresh sample_env empty_world ''/home/u/.cursor/mcp.json'' \<and>
   (\<exists>r w'. configure CursorPlatform sample_env ''abc123xyz'' (Some ''global'') empty_world = (Inr r, w') \<and>
      files w' ''/home/u/.cursor/mcp.json'' =
        Some (Json (JObj [(''mcpServers'',
          JObj [(''spectator-voice-memory'',
            JObj [(''command'', JStr ''npx''),
                  (''args'', JArr [JStr ''-y'', JStr ''mcp-remote'',
                     JStr (''https://spectatorcontext.com/mcp-server/mcp/'' @ ''abc123xyz'')])])])])) \<and>
      r = Ret_record None False None)"
proof -
  from first_configure [OF sample_paths(1) sample_fresh(1), of "''abc123xyz''"]
  obtain r w' where
    "configure CursorPlatform sample_env ''abc123xyz'' (Some ''global'') empty_world = (Inr r, w')"
    "files w' ''/home/u/.cursor/mcp.json'' =
        Some (Json (JObj [(''mcpServers'',
          JObj [(''spectator-voice-memory'',
            JObj [(''command'', JStr ''npx''),
                  (''args'', JArr [JStr ''-y'', JStr ''mcp-remote'',
                     JStr (''https://spectatorcontext.com/mcp-server/mcp/'' @ ''abc123xyz'')])])])]))"
    "r = Ret_record None False None"
    by auto
  with sample_paths(1) sample_fresh(1) show ?thesis by blast
qed

text \<open>
  The claim as stated fails for VS Code: a first \<^verbatim>\<open>configure\<close> returns the
  boolean \<^verbatim>\<open>true\<close>, which is not a record and has no \<^verbatim>\<open>updated\<close> field.
\<close>

theorem first_configure_returns_true_counterexample:
  "fresh sample_env empty_world ''/home/u/.vscode/mcp.json'' \<and>
   fst (configure VSCodePlatform sample_env ''abc123xyz'' (Some ''global'') empty_world) = Inr Ret_true \<and>
   result_updated Ret_true = None"
proof -
  have "configure VSCodePlatform sample_env ''abc123xyz'' (Some ''global'') empty_world =
          configure_body VSCodePlatform sample_env ''abc123xyz'' ''/home/u/.vscode/mcp.json'' empty_world"
    by (rule configure_at [OF sample_paths(2)])
  then have "fst (configure VSCodePlatform sample_env ''abc123xyz'' (Some ''global'') empty_world) = Inr Ret_true"
    unfolding configure_body_fresh [OF sample_fresh(2)] by (simp add: expected_result_def)
  with sample_fresh(2) show ?thesis by simp
qed

subsection \<open>Removal\<close>



subsection \<open>The two ways of computing hasOtherServers\<close>

lemma length_filter_other:
  "distinct xs \<Longrightarrow> k \<in> set xs \<Longrightarrow> length (filter (\<lambda>x. x \<noteq> k) xs) = length xs - 1"
proof (induction xs)
  case Nil
  then show ?case by simp
next
  case (Cons x xs)
  show ?case
  proof (cases "x = k")
    case True
    with Cons.prems have "k \<notin> set xs" by simp
    then have "filter (\<lambda>x. x \<noteq> k) xs = xs" by (induction xs) auto
    with True show ?thesis by simp
  next
    case False
    with Cons have "length (filter (\<lambda>x. x \<noteq> k) xs) = length xs - 1" and "k \<in> set xs" by auto
    moreover from \<open>k \<in> set xs\<close> have "length xs > 0" by (cases xs) auto
    ultimately show ?thesis using False by simp
  qed
qed

lemma length_update_alist:
  "length (AList.update k v al) = (if k \<in> fst ` set al then length al else Suc (length al))"
  by (induction al) auto

lemma flags_agree_list:
  assumes "distinct (map fst al)"
  shows "(1 < length (AList.update k v al)) = (0 < length (filter (\<lambda>x. x \<noteq> k) (map fst al)))"
proof (cases "k \<in> fst ` set al")
  case True
  then have "k \<in> set (map fst al)" by simp
  from length_filter_other [OF assms this] True show ?thesis
    by (simp add: length_update_alist)
next
  case False
  then have "filter (\<lambda>x. x \<noteq> k) (map fst al) = map fst al"
    by (induction al) auto
  with False show ?thesis by (simp add: length_update_alist)
qed

text \<open>
  Claim C10. Cursor and Windsurf compute \<^verbatim>\<open>hasOtherServers\<close> after the insert, as
  "more than one key under \<^verbatim>\<open>mcpServers\<close>"; Claude Code computes it before the
  insert, as "some key other than \<^verbatim>\<open>spectator-voice-memory\<close>". Run on files that
  hold the same document, a JSON object whose \<^verbatim>\<open>mcpServers\<close> is missing, falsy
  or an object with each key once (as every parsed JSON text has them), both calls
  succeed and return the same flag.
\<close>

theorem hasOtherServers_agree:
  assumes "registry_doc flds" and "distinct (map fst (servers_of flds))"
    and "a = CursorPlatform \<or> a = WindsurfPlatform"
    and "configure_path a env sc = Some p" and "files w p = Some (Json (JObj flds))" and "ready env w p"
    and "configure_path ClaudeCode env' sc' = Some p'" and "files w' p' = Some (Json (JObj flds))"
    and "ready env' w' p'"
  shows "\<exists>u h c x u' c' x'.
           configure a env apiKey sc w = (Inr (Ret_record u h c), x) \<and>
           configure ClaudeCode env' apiKey' sc' w' = (Inr (Ret_record u' h c'), x')"
proof -
  have 1: "configure a env apiKey sc w =
             (Inr (expected_result a apiKey p flds), after_configure a env apiKey p flds w)"
    by (simp add: configure_at [OF assms(4)] configure_body_doc [OF assms(5) assms(1) assms(6)])
  have 2: "configure ClaudeCode env' apiKey' sc' w' =
             (Inr (expected_result ClaudeCode apiKey' p' flds), after_configure ClaudeCode env' apiKey' p' flds w')"
    unfolding configure_at [OF assms(7)] by (rule configure_body_doc [OF assms(8) assms(1) assms(9)])
  from assms(3) flags_agree_list [OF assms(2), of "''spectator-voice-memory''" "canonical_json apiKey"]
  show ?thesis
    unfolding 1 2 by (auto simp: expected_result_def)
qed


lemma sample_claudecode_path:
  "configure_path ClaudeCode sample_env sc = Some ''/home/u/.claudecode/settings.json''"
  by (simp add: configure_path_def ClaudeCode_getConfigPath_def sample_env_def)

lemma sample_ready:
  "ready sample_env cursor_world ''/home/u/.cursor/mcp.json''"
  "ready sample_env claudecode_world ''/home/u/.claudecode/settings.json''"
  by (simp_all add: ready_def copy_allowed_def backup_path_def cursor_world_def claudecode_world_def
      world_with_def sample_env_def sample_dirname_def)

lemma sample_doc:
  "registry_doc other_tool_fields"
  "distinct (map fst (servers_of other_tool_fields))"
  "files cursor_world ''/home/u/.cursor/mcp.json'' = Some (Json (JObj other_tool_fields))"
  "files claudecode_world ''/home/u/.claudecode/settings.json'' = Some (Json (JObj other_tool_fields))"
  by (simp_all add: registry_doc_def servers_of_def other_tool_fields_def cursor_world_def
      claudecode_world_def world_with_def)

theorem hasOtherServers_agree_witness:
  "registry_doc other_tool_fields \<and> distinct (map fst (servers_of other_tool_fields)) \<and>
   ready sample_env cursor_world ''/home/u/.cursor/mcp.json'' \<and>
   ready sample_env claudecode_world ''/home/u/.claudecode/settings.json'' \<and>
   (\<exists>u h c x u' c' x'.
      configure CursorPlatform sample_env ''abc123xyz'' (Some ''global'') cursor_world =
        (Inr (Ret_record u h c), x) \<and>
      configure ClaudeCode sample_env ''def456uvw'' None claudecode_world =
        (Inr (Ret_record u' h c'), x'))"
  using hasOtherServers_agree [OF sample_doc(1) sample_doc(2) _ sample_paths(1) sample_doc(3)
      sample_ready(1) sample_claudecode_path sample_doc(4) sample_ready(2),
      of "''abc123xyz''" "''def456uvw''" None]
    sample_doc(1) sample_doc(2) sample_ready
  by simp

subsection \<open>Running configure twice\<close>

text \<open>
  A first run on a path where nothing exists followed by a second run with another key:
  the second run finds the document of the first, replaces the whole entry, and (for
  every adapter but Claude Code) starts with the copy to the backup path.
\<close>

lemma put_entry_Nil:
  "put_entry k [] = [(''mcpServers'', JObj [(''spectator-voice-memory'', canonical_json k)])]"
  by (simp add: put_entry_def)

lemma put_entry_twice: "put_entry k2 (put_entry k1 flds) = put_entry k2 flds"
  by (simp add: put_entry_def)

lemma entry_of_put [simp]: "entry_of (put_entry k flds) = Some (of_json (canonical_json k))"
  by (simp add: entry_of_def put_entry_def update_conv')

lemma servers_of_put [simp]:
  "servers_of (put_entry k flds) =
     AList.update ''spectator-voice-memory'' (canonical_json k) (servers_of flds)"
  by (simp add: put_entry_def)

lemma registry_doc_put [simp]: "registry_doc (put_entry k flds)"
  by (simp add: registry_doc_def put_entry_def update_conv')

lemma truthy_entry_put [simp]: "truthy (entry_of (put_entry k flds))"
  by (simp add: canonical_json_def)

lemma ready_after_fresh:
  assumes "fresh env w p" and "copy_allowed env w p" and "backup_path env p \<noteq> dirname env p"
  shows "ready env (after_configure a env k p [] w) p"
  using assms
  by (auto simp: ready_def fresh_def copy_allowed_def after_configure_def existsSync_def)

lemma file_after_configure:
  "files (after_configure a env k p flds w) p = Some (Json (JObj (put_entry k flds)))"
  by (simp add: after_configure_def)

lemma backup_due_after:
  "backup_due a (after_configure a env k p flds w) p = (a \<noteq> ClaudeCode)"
  by (cases a) (simp_all add: backup_due_def file_after_configure configured_registry_doc)

lemma configure_twice:
  assumes "configure_path a env sc = Some p" and "fresh env w p" and "copy_allowed env w p"
    and "backup_path env p \<noteq> dirname env p"
  shows "configure a env k2 sc (snd (configure a env k1 sc w)) =
           (Inr (expected_result a k2 p (put_entry k1 [])),
            after_configure a env k2 p (put_entry k1 []) (after_configure a env k1 p [] w))"
proof -
  have 1: "configure a env k1 sc w = (Inr (expected_result a k1 p []), after_configure a env k1 p [] w)"
    by (simp add: configure_at [OF assms(1)] configure_body_fresh [OF assms(2)])
  have "configure a env k2 sc (after_configure a env k1 p [] w) =
           (Inr (expected_result a k2 p (put_entry k1 [])),
            after_configure a env k2 p (put_entry k1 []) (after_configure a env k1 p [] w))"
    unfolding configure_at [OF assms(1)]
    by (rule configure_body_doc [OF file_after_configure registry_doc_put
          ready_after_fresh [OF assms(2) assms(3) assms(4)]])
  then show ?thesis unfolding 1 snd_conv .
qed

lemma second_configure_backs_up:
  assumes "configure_path a env sc = Some p" and "fresh env w p" and "copy_allowed env w p"
    and "backup_path env p \<noteq> dirname env p" and "backup_path env p \<noteq> p" and "a \<noteq> ClaudeCode"
    and "configure a env k1 sc w = (r1, w1)" and "configure a env k2 sc w1 = (r2, w2)"
  shows "trace w2 = trace w1 @ [Copy p (backup_path env p), Write p (Json (JObj (put_entry k2 [])))] \<and>
         files w2 (backup_path env p) = Some (Json (JObj (put_entry k1 []))) \<and>
         files w2 p = Some (Json (JObj (put_entry k2 [])))"
proof -
  have 1: "w1 = after_configure a env k1 p [] w"
    using assms(7) by (simp add: configure_at [OF assms(1)] configure_body_fresh [OF assms(2)])
  from configure_twice [OF assms(1-4), of k2 k1] assms(7,8)
  have 2: "w2 = after_configure a env k2 p (put_entry k1 []) w1"
    by (simp add: 1)
  have d: "dirname env p \<in> dirs w1" by (simp add: 1 after_configure_def)
  have b: "backup_due a w1 p" unfolding 1 using assms(6) by (simp add: backup_due_after)
  have f: "files w1 p = Some (Json (JObj (put_entry k1 [])))" by (simp add: 1 file_after_configure)
  show ?thesis
    unfolding 2 using d b f assms(5) by (simp add: after_configure_def put_entry_twice)
qed

lemma sample_claudecode_fresh:
  "fresh sample_env empty_world ''/home/u/.claudecode/settings.json''"
  by (simp add: fresh_def existsSync_def empty_world_def sample_env_def sample_dirname_def)

text \<open>
  Claim C5. Running \<^verbatim>\<open>configure\<close> twice with two different API keys overwrites the
  entry as a whole, and a backup is made before the second write. The overwrite holds for
  every adapter (\<open>configure_twice\<close>), and the backup for every adapter that calls
  \<^verbatim>\<open>backupConfig\<close> (\<open>second_configure_backs_up\<close>). The Claude Code adapter
  inherits \<^verbatim>\<open>backupConfig\<close> and never calls it: after two runs from an empty home
  directory the file holds the entry of the second key only, the second run reports
  \<^verbatim>\<open>updated: true\<close>, and the file system has seen one \<^verbatim>\<open>mkdir\<close> and two writes,
  no copy; the only file is the configuration file.
\<close>

theorem ClaudeCode_second_configure_no_backup:
  "configure ClaudeCode sample_env ''key-two-222'' None
     (snd (configure ClaudeCode sample_env ''key-one-111'' None empty_world)) =
   (Inr (Ret_record (Some (VBool True)) False (Some ''/home/u/.claudecode/settings.json'')),
    \<lparr>files = [''/home/u/.claudecode/settings.json'' \<mapsto>
       Json (JObj [(''mcpServers'', JObj [(''spectator-voice-memory'', canonical_json ''key-two-222'')])])],
     dirs = {''/home/u/.claudecode'', ''/home/u'', ''/work''},
     locked = {},
     trace = [Mkdir ''/home/u/.claudecode'',
              Write ''/home/u/.claudecode/settings.json''
                (Json (JObj [(''mcpServers'', JObj [(''spectator-voice-memory'', canonical_json ''key-one-111'')])])),
              Write ''/home/u/.claudecode/settings.json''
                (Json (JObj [(''mcpServers'', JObj [(''spectator-voice-memory'', canonical_json ''key-two-222'')])]))]\<rparr>)"
proof -
  have c: "copy_allowed sample_env empty_world ''/home/u/.claudecode/settings.json''"
    by (simp add: copy_allowed_def backup_path_def empty_world_def)
  have b: "backup_path sample_env ''/home/u/.claudecode/settings.json'' \<noteq>
           dirname sample_env ''/home/u/.claudecode/settings.json''"
    by (simp add: backup_path_def sample_env_def sample_dirname_def)
  show ?thesis
    unfolding put_entry_Nil [symmetric]
      configure_twice [OF sample_claudecode_path sample_claudecode_fresh c b]
    by (simp add: expected_result_def after_configure_def backup_due_def put_entry_twice
        empty_world_def sample_env_def sample_dirname_def)
qed

subsection \<open>Insert, then remove\<close>

lemma elsewhere_after_configure:
  assumes "elsewhere_empty env w p cp" and "ready env w p"
  shows "elsewhere_empty env (after_configure a env k p flds w) p cp"
proof -
  from assms(2) have "insert (dirname env p) (dirs w) = dirs w" by (auto simp: ready_def)
  with assms(1) show ?thesis
    by (auto simp: elsewhere_empty_def after_configure_def existsSync_def split: option.splits)
qed

lemma insert_then_remove_file:
  assumes "configure_path a env sc = Some p" and "remove_reaches a env w p"
    and "files w p = Some (Json (JObj flds))" and "registry_doc flds" and "ready env w p"
  shows "\<exists>r1 w1 r2 w2. configure a env k sc w = (Inr r1, w1) \<and> remove a env w1 = (Inr r2, w2) \<and>
           files w2 p = Some (Json (JObj (without_entry a (put_entry k flds))))"
proof -
  let ?w1 = "after_configure a env k p flds w"
  have c: "configure a env k sc w = (Inr (expected_result a k p flds), ?w1)"
    by (simp add: configure_at [OF assms(1)] configure_body_doc [OF assms(3) assms(4) assms(5)])
  from assms(5) have l: "p \<notin> locked ?w1" "p \<notin> dirs ?w1" "dirname env p \<in> dirs ?w1"
    by (auto simp: ready_def after_configure_def)
  from assms(2) have ex: "list_ex (\<lambda>cp. resolved cp = Some p) (config_paths a env)"
    and "list_all (elsewhere_empty env w p) (config_paths a env)"
    by (simp_all add: remove_reaches_def)
  then have el: "list_all (elsewhere_empty env ?w1 p) (config_paths a env)"
    using elsewhere_after_configure [OF _ assms(5)] by (simp add: list_all_iff)
  from remove_reach [OF file_after_configure truthy_entry_put l ex el] c
  show ?thesis by blast
qed

lemma without_put_entry:
  assumes "''spectator-voice-memory'' \<notin> fst ` set (servers_of flds)"
  shows "without_entry a (put_entry k flds) =
           (if a = ClaudeCode \<and> servers_of flds = [] then AList.delete ''mcpServers'' flds
            else AList.update ''mcpServers'' (JObj (servers_of flds)) flds)"
  using assms by (simp add: without_entry_def put_entry_def delete_update_same Let_def)

lemma servers_of_delete [simp]: "servers_of (AList.delete ''mcpServers'' flds) = []"
  by (simp add: servers_of_def delete_conv')

lemma servers_field:
  "servers_of flds \<noteq> [] \<Longrightarrow> map_of flds ''mcpServers'' = Some (JObj (servers_of flds))"
  by (auto simp: servers_of_def split: option.splits json.splits)


lemma sample_reaches:
  "remove_reaches CursorPlatform sample_env cursor_world ''/home/u/.cursor/mcp.json''"
  "remove_reaches CursorPlatform sample_env empty_doc_world ''/home/u/.cursor/mcp.json''"
  by (simp_all add: remove_reaches_def elsewhere_empty_def config_paths_def resolved_def
      sample_env_def sample_getConfigPath_def existsSync_def cursor_world_def empty_doc_world_def
      world_with_def backup_path_def)

lemma sample_empty_doc:
  "files empty_doc_world ''/home/u/.cursor/mcp.json'' = Some (Json (JObj []))"
  "ready sample_env empty_doc_world ''/home/u/.cursor/mcp.json''"
  by (simp_all add: ready_def copy_allowed_def backup_path_def empty_doc_world_def
      world_with_def sample_env_def sample_dirname_def)

lemma sample_no_entry:
  "''spectator-voice-memory'' \<notin> fst ` set (servers_of other_tool_fields)"
  "servers_of other_tool_fields \<noteq> []"
  by (simp_all add: servers_of_def other_tool_fields_def)



subsection \<open>The exit status of setup\<close>

lemma outcomes_success:
  "list_ex r_success (fst (configure_each env k sc names w)) = some_success env k sc names w"
proof (induction names arbitrary: w)
  case Nil
  then show ?case by simp
next
  case (Cons name rest)
  show ?case
  proof (cases "platforms name")
    case None
    with Cons show ?thesis by simp
  next
    case (Some a)
    obtain r w' where c: "configure a env k sc w = (r, w')" by (cases "configure a env k sc w")
    obtain rs w'' where e: "configure_each env k sc rest w' = (rs, w'')"
      by (cases "configure_each env k sc rest w'")
    from Cons [of w'] e have ih: "list_ex r_success rs = some_success env k sc rest w'" by simp
    show ?thesis
      by (cases r) (simp_all add: Some c e ih del: configure.simps)
  qed
qed

lemma filter_success:
  "(filter r_success rs = []) = (\<not> list_ex r_success rs)"
  by (simp add: filter_empty_conv list_ex_iff)



lemma sample_setup:
  "getInstalledPlatforms sample_env = Inr [''cursor'']"
  "platforms ''cursor'' = Some CursorPlatform"
  by (simp_all add: sample_env_def platforms_def)

lemma sample_requested:
  "requested_platforms \<lparr>opt_apiKey = Some ''abc123xyz'', opt_platforms = Some ''cursor,vscode'',
      opt_scope = Some ''global''\<rparr> = Some [''cursor'', ''vscode'']"
  by (simp add: requested_platforms_def trim_def is_space_def toLowerCase_def)


end
